theory Spec2Isabelle
  imports Main "HOL-Library.AList" "HOL-Library.Multiset"
begin

section \<open>A2A data models (src/core/models.py)\<close>

text \<open>
  Times are readings of the wall clock (\<open>datetime.now()\<close>), supplied by the caller as a
  natural number. JSON payloads (\<open>Dict[str, Any]\<close>) are association lists of \<open>jval\<close>;
  numbers are integers.
\<close>

datatype jval =
    JNull
  | JBool bool
  | JNum int
  | JStr string
  | JList "jval list"
  | JObj "(string \<times> jval) list"

text \<open>Python truthiness of a JSON value (\<open>not v\<close> is \<open>\<not> truthy v\<close>).\<close>

fun truthy :: "jval \<Rightarrow> bool" where
  "truthy JNull = False"
| "truthy (JBool b) = b"
| "truthy (JNum n) = (n \<noteq> 0)"
| "truthy (JStr s) = (s \<noteq> [])"
| "truthy (JList xs) = (xs \<noteq> [])"
| "truthy (JObj kvs) = (kvs \<noteq> [])"

text \<open>\<open>d.get(k)\<close>: the value under the key, \<open>None\<close> (here \<open>JNull\<close>) when absent.\<close>

definition dict_get :: "(string \<times> jval) list \<Rightarrow> string \<Rightarrow> jval" where
  "dict_get d k = (case map_of d k of None \<Rightarrow> JNull | Some v \<Rightarrow> v)"

datatype TaskStatus = PENDING | IN_PROGRESS | COMPLETED | FAILED | CANCELED

text \<open>\<open>TaskStatus(value)\<close>: the member with that value; \<open>None\<close> stands for the ValueError.\<close>

definition TaskStatus_of :: "string \<Rightarrow> TaskStatus option" where
  "TaskStatus_of v =
     (if v = ''pending'' then Some PENDING
      else if v = ''in_progress'' then Some IN_PROGRESS
      else if v = ''completed'' then Some COMPLETED
      else if v = ''failed'' then Some FAILED
      else if v = ''canceled'' then Some CANCELED
      else None)"

fun TaskStatus_value :: "TaskStatus \<Rightarrow> string" where
  "TaskStatus_value PENDING = ''pending''"
| "TaskStatus_value IN_PROGRESS = ''in_progress''"
| "TaskStatus_value COMPLETED = ''completed''"
| "TaskStatus_value FAILED = ''failed''"
| "TaskStatus_value CANCELED = ''canceled''"

record DataPart =
  dp_id :: string
  content_type :: string
  data :: "(string \<times> jval) list"

record Task =
  task_id :: string
  task_type :: string
  task_status :: TaskStatus
  created_at :: nat
  updated_at :: nat
  source_agent_id :: string
  target_agent_id :: string
  data_parts :: "DataPart list"
  parent_task_id :: "string option"
  task_metadata :: "(string \<times> jval) list option"

text \<open>\<open>Task.update_status\<close>: two assignments, no look at the current status.\<close>

definition update_status :: "Task \<Rightarrow> TaskStatus \<Rightarrow> nat \<Rightarrow> Task" where
  "update_status task st now = task\<lparr>task_status := st, updated_at := now\<rparr>"

text \<open>
  Exceptions a handler or a library call raises, with the message \<open>str(e)\<close> reads.
\<close>

datatype exn =
    ValueError string
  | TypeError string
  | AttributeError string
  | IndexError string
  | Exception string

fun str :: "exn \<Rightarrow> string" where
  "str (ValueError m) = m"
| "str (TypeError m) = m"
| "str (AttributeError m) = m"
| "str (IndexError m) = m"
| "str (Exception m) = m"

text \<open>The name Python prints for the type of a value, and a text in quotes.\<close>

fun type_name :: "jval \<Rightarrow> string" where
  "type_name JNull = ''NoneType''"
| "type_name (JBool b) = ''bool''"
| "type_name (JNum n) = ''int''"
| "type_name (JStr s) = ''str''"
| "type_name (JList xs) = ''list''"
| "type_name (JObj kvs) = ''dict''"

definition quoted :: "string \<Rightarrow> string" where
  "quoted s = CHR 0x27 # s @ [CHR 0x27]"

text \<open>
  \<open>if not task.metadata: task.metadata = {}\<close> followed by \<open>task.metadata[k] = v\<close>.
\<close>

definition set_metadata :: "Task \<Rightarrow> string \<Rightarrow> jval \<Rightarrow> Task" where
  "set_metadata task k v =
     (let md = (case task_metadata task of None \<Rightarrow> [] | Some m \<Rightarrow> m)
      in task\<lparr>task_metadata := Some (AList.update k v md)\<rparr>)"

section \<open>The base agent (src/core/agent.py)\<close>

text \<open>
  A handler is an awaited coroutine on the task object: it may mutate the task and then
  returns (\<open>None\<close>) or raises (\<open>Some e\<close>). Its effects on other state do not reach the
  task's status and are left out here.
\<close>

type_synonym handler = "Task \<Rightarrow> nat \<Rightarrow> exn option \<times> Task"

record BaseAgent =
  agent_id :: string
  task_handlers :: "string \<rightharpoonup> handler"
  tasks :: "string \<rightharpoonup> Task"

datatype 'a response =
    Returned 'a
  | HTTPException nat string
  | Unhandled exn

text \<open>\<open>register_task_handler\<close>: the last registration for a type wins.\<close>

definition register_task_handler :: "BaseAgent \<Rightarrow> string \<Rightarrow> handler \<Rightarrow> BaseAgent" where
  "register_task_handler a ty h = a\<lparr>task_handlers := (task_handlers a)(ty \<mapsto> h)\<rparr>"

text \<open>
  \<open>_handle_incoming_task\<close> (POST /tasks). The third component is the request's
  \<open>BackgroundTasks\<close>: the tasks \<open>_process_task\<close> will be run on. The stored object and
  the returned one are the same Python object, so the store sees the status update made
  after the assignment \<open>self.tasks[task.id] = task\<close>.
\<close>

definition handle_incoming_task ::
  "BaseAgent \<Rightarrow> Task list \<Rightarrow> Task \<Rightarrow> nat \<Rightarrow> Task response \<times> BaseAgent \<times> Task list" where
  "handle_incoming_task a background_tasks task now =
     (if target_agent_id task \<noteq> agent_id a then
        (HTTPException 400
           (''Task target '' @ target_agent_id task @ '' does not match this agent (''
              @ agent_id a @ '')''),
         a, background_tasks)
      else if task_handlers a (task_type task) = None then
        (HTTPException 400 (''No handler for task type: '' @ task_type task),
         a, background_tasks)
      else
        (let task' = update_status task IN_PROGRESS now
         in (Returned task',
             a\<lparr>tasks := (tasks a)(task_id task \<mapsto> task')\<rparr>,
             background_tasks @ [task'])))"

text \<open>
  \<open>_process_task\<close>: the handler lookup stands outside the \<open>try\<close>, so a missing handler
  is a KeyError of the background call (\<open>None\<close> here).
\<close>

definition process_task :: "BaseAgent \<Rightarrow> Task \<Rightarrow> nat \<Rightarrow> Task option" where
  "process_task a task now =
     (case task_handlers a (task_type task) of
        None \<Rightarrow> None
      | Some h \<Rightarrow>
          (case h task now of
             (None, task') \<Rightarrow> Some (update_status task' COMPLETED now)
           | (Some e, task') \<Rightarrow>
               Some (set_metadata (update_status task' FAILED now) ''error'' (JStr (str e)))))"

text \<open>
  PATCH /tasks/{task_id}. The request body is a JSON object; its entries are taken here
  already classified by key: a string under \<open>status\<close>, a value of the field's own type
  under another field's name, or a key the task has no attribute for (skipped by the
  \<open>hasattr\<close> test). Entries that would store a value of a foreign type in a field are
  not represented.
\<close>

datatype field_update =
    Status_str string
  | Type_str string
  | Source_agent_id_str string
  | Target_agent_id_str string
  | Parent_task_id_val "string option"
  | Metadata_val "(string \<times> jval) list option"
  | No_attribute string jval

fun apply_update :: "Task \<Rightarrow> field_update \<Rightarrow> nat \<Rightarrow> exn + Task" where
  "apply_update task (Status_str v) now =
     (case TaskStatus_of v of
        None \<Rightarrow> Inl (ValueError (quoted v @ '' is not a valid TaskStatus''))
      | Some st \<Rightarrow> Inr (update_status task st now))"
| "apply_update task (Type_str v) now = Inr (task\<lparr>task_type := v\<rparr>)"
| "apply_update task (Source_agent_id_str v) now = Inr (task\<lparr>source_agent_id := v\<rparr>)"
| "apply_update task (Target_agent_id_str v) now = Inr (task\<lparr>target_agent_id := v\<rparr>)"
| "apply_update task (Parent_task_id_val v) now = Inr (task\<lparr>parent_task_id := v\<rparr>)"
| "apply_update task (Metadata_val v) now = Inr (task\<lparr>task_metadata := v\<rparr>)"
| "apply_update task (No_attribute k v) now = Inr task"

text \<open>
  The loop over \<open>update_data.items()\<close>. The task is mutated in place, so what was
  assigned before an exception stays assigned.
\<close>

fun apply_updates :: "Task \<Rightarrow> field_update list \<Rightarrow> nat \<Rightarrow> exn option \<times> Task" where
  "apply_updates task [] now = (None, task)"
| "apply_updates task (u # us) now =
     (case apply_update task u now of
        Inl e \<Rightarrow> (Some e, task)
      | Inr task' \<Rightarrow> apply_updates task' us now)"

definition update_task ::
  "BaseAgent \<Rightarrow> string \<Rightarrow> field_update list \<Rightarrow> nat \<Rightarrow> Task response \<times> BaseAgent" where
  "update_task a tid update_data now =
     (case tasks a tid of
        None \<Rightarrow> (HTTPException 404 (''Task '' @ tid @ '' not found''), a)
      | Some task \<Rightarrow>
          (case apply_updates task update_data now of
             (Some e, task') \<Rightarrow> (Unhandled e, a\<lparr>tasks := (tasks a)(tid \<mapsto> task')\<rparr>)
           | (None, task') \<Rightarrow>
               (let task'' = task'\<lparr>updated_at := now\<rparr>
                in (Returned task'', a\<lparr>tasks := (tasks a)(tid \<mapsto> task'')\<rparr>))))"

text \<open>
  The edges section 4.1 of the specification allows, written from its words:
  pending to in_progress, in_progress to completed or failed, pending to canceled.
\<close>

definition spec_edge :: "TaskStatus \<Rightarrow> TaskStatus \<Rightarrow> bool" where
  "spec_edge s s' =
     ((s = PENDING \<and> s' = IN_PROGRESS) \<or>
      (s = IN_PROGRESS \<and> s' = COMPLETED) \<or>
      (s = IN_PROGRESS \<and> s' = FAILED) \<or>
      (s = PENDING \<and> s' = CANCELED))"

text \<open>Concrete values used in the closed instances below.\<close>

definition example_task :: Task where
  "example_task =
     \<lparr>task_id = ''t1'', task_type = ''post_status_update'', task_status = PENDING,
      created_at = 1, updated_at = 1, source_agent_id = ''orchestrator'',
      target_agent_id = ''content-scheduler-agent'', data_parts = [],
      parent_task_id = None, task_metadata = None\<rparr>"

definition ok_handler :: handler where
  "ok_handler task now = (None, task)"

definition raising_handler :: "string \<Rightarrow> handler" where
  "raising_handler msg task now = (Some (ValueError msg), task)"

definition example_agent :: BaseAgent where
  "example_agent =
     \<lparr>agent_id = ''content-scheduler-agent'',
      task_handlers = [''post_status_update'' \<mapsto> ok_handler],
      tasks = Map.empty\<rparr>"

section \<open>Task storage (src/core/storage.py)\<close>

text \<open>
  A MongoDB collection is a map from \<open>_id\<close> to document; a document is kept as the object
  it was written from (\<open>_task_to_dict\<close> and \<open>_dict_to_task\<close> are inverse on what the
  record holds). \<open>replace_one(..., upsert=True)\<close> writes the document under its key. The
  flag says whether the database call goes through; when it raises, \<open>save_task\<close> logs and
  returns \<open>False\<close>.
\<close>

definition save_task ::
  "bool \<Rightarrow> (string \<rightharpoonup> Task) \<Rightarrow> Task \<Rightarrow> bool \<times> (string \<rightharpoonup> Task)" where
  "save_task db_up coll task =
     (if db_up then (True, coll(task_id task \<mapsto> task)) else (False, coll))"

definition completed_agent :: BaseAgent where
  "completed_agent =
     example_agent\<lparr>tasks := [''t1'' \<mapsto> example_task\<lparr>task_status := COMPLETED\<rparr>]\<rparr>"

definition example_collection :: "string \<rightharpoonup> Task" where
  "example_collection =
     [''t0'' \<mapsto> example_task\<lparr>task_id := ''t0'', task_status := FAILED\<rparr>,
      ''t1'' \<mapsto> example_task\<lparr>task_status := COMPLETED\<rparr>]"

section \<open>Content models (src/agents/content_scheduler/models.py)\<close>

datatype ContentType = TEXT | IMAGE | VIDEO | LINK | MIXED

datatype PostStatus = DRAFT | SCHEDULED | PUBLISHED | POST_FAILED | POST_CANCELED

datatype SocialPlatform = FACEBOOK | TWITTER | INSTAGRAM | LINKEDIN

fun SocialPlatform_value :: "SocialPlatform \<Rightarrow> string" where
  "SocialPlatform_value FACEBOOK = ''facebook''"
| "SocialPlatform_value TWITTER = ''twitter''"
| "SocialPlatform_value INSTAGRAM = ''instagram''"
| "SocialPlatform_value LINKEDIN = ''linkedin''"

text \<open>\<open>SocialPlatform(value)\<close>; \<open>None\<close> stands for the ValueError.\<close>

definition SocialPlatform_of :: "string \<Rightarrow> SocialPlatform option" where
  "SocialPlatform_of v =
     (if v = ''facebook'' then Some FACEBOOK
      else if v = ''twitter'' then Some TWITTER
      else if v = ''instagram'' then Some INSTAGRAM
      else if v = ''linkedin'' then Some LINKEDIN
      else None)"

record PlatformSpecificContent =
  platform :: SocialPlatform
  content_text :: string
  image_reference :: "string option"
  hashtags :: "string list"
  psc_metadata :: "(string \<times> jval) list"

record ContentAdaptationRules =
  rules_platform :: SocialPlatform
  max_text_length :: int
  hashtag_format :: string
  image_requirements :: "(string \<times> jval) list option"

section \<open>Content adaptation (src/agents/content_scheduler/adapters.py)\<close>

text \<open>
  On ASCII text \<open>\w\<close> of the regular expressions is a letter, a digit or the
  underscore, and the white space \<open>str.strip()\<close> removes is the ASCII white space.
  Python classifies the characters from 0x80 up by their Unicode properties; a raw text
  holding one is outside the model (see \<open>adapt_content_for_platform\<close>).
\<close>

definition is_ascii :: "char \<Rightarrow> bool" where
  "is_ascii c = ((of_char c :: nat) < 128)"

definition is_word_char :: "char \<Rightarrow> bool" where
  "is_word_char c =
     (let n = (of_char c :: nat)
      in (48 \<le> n \<and> n \<le> 57) \<or> (65 \<le> n \<and> n \<le> 90) \<or> (97 \<le> n \<and> n \<le> 122) \<or> n = 95)"

definition is_space :: "char \<Rightarrow> bool" where
  "is_space c =
     (let n = (of_char c :: nat)
      in (9 \<le> n \<and> n \<le> 13) \<or> (28 \<le> n \<and> n \<le> 32))"

text \<open>
  \<open>re.findall(r'#(\w+)', text)\<close>: scanning from the left, a \<open>#\<close> followed by at least
  one word character matches greedily, and the scan goes on behind the match.
\<close>

function extract_hashtags :: "string \<Rightarrow> string list" where
  "extract_hashtags [] = []"
| "extract_hashtags (c # cs) =
     (if c = CHR ''#'' \<and> takeWhile is_word_char cs \<noteq> []
      then takeWhile is_word_char cs # extract_hashtags (dropWhile is_word_char cs)
      else extract_hashtags cs)"
  by pat_completeness auto
termination
  by (relation "measure length") (auto simp: length_dropWhile_le less_Suc_eq_le)

text \<open>\<open>re.sub(r'#\w+', '', text)\<close>: the same matches, deleted.\<close>

function remove_hashtags :: "string \<Rightarrow> string" where
  "remove_hashtags [] = []"
| "remove_hashtags (c # cs) =
     (if c = CHR ''#'' \<and> takeWhile is_word_char cs \<noteq> []
      then remove_hashtags (dropWhile is_word_char cs)
      else c # remove_hashtags cs)"
  by pat_completeness auto
termination
  by (relation "measure length") (auto simp: length_dropWhile_le less_Suc_eq_le)

definition strip :: "string \<Rightarrow> string" where
  "strip s = rev (dropWhile is_space (rev (dropWhile is_space s)))"

text \<open>
  The result of a call that may raise. \<open>Outside_model\<close> marks an input whose Python
  behaviour this development does not describe.
\<close>

datatype 'a outcome = Value 'a | Raised exn | Outside_model

fun map_outcome :: "('a \<Rightarrow> 'b) \<Rightarrow> 'a outcome \<Rightarrow> 'b outcome" where
  "map_outcome f (Value x) = Value (f x)"
| "map_outcome f (Raised e) = Raised e"
| "map_outcome f Outside_model = Outside_model"

fun bind :: "'a outcome \<Rightarrow> ('a \<Rightarrow> 'b outcome) \<Rightarrow> 'b outcome" where
  "bind (Value x) f = f x"
| "bind (Raised e) f = Raised e"
| "bind Outside_model f = Outside_model"

text \<open>
  \<open>template.format(arg)\<close> with one positional argument. Covered: literal text, the
  escapes \<open>{{\<close> and \<open>}}\<close>, and the automatic field \<open>{}\<close> (a second one has no argument
  left: IndexError). A brace standing alone is a ValueError. Any other replacement
  field (an index, a name, a conversion, a format specification) is outside the model.
  The flag says whether an automatic field was already filled.
\<close>

definition single_brace :: "char \<Rightarrow> exn" where
  "single_brace c = ValueError (''Single '' @ quoted [c] @ '' encountered in format string'')"

fun py_format :: "string \<Rightarrow> string \<Rightarrow> bool \<Rightarrow> string outcome" where
  "py_format [] arg used = Value []"
| "py_format [c] arg used =
     (if c = CHR ''{'' \<or> c = CHR ''}'' then Raised (single_brace c) else Value [c])"
| "py_format (c # d # ds) arg used =
     (if c = CHR ''{'' then
        (if d = CHR ''{'' then map_outcome ((#) CHR ''{'') (py_format ds arg used)
         else if d = CHR ''}'' then
           (if used then
              Raised (IndexError ''Replacement index 1 out of range for positional args tuple'')
            else map_outcome ((@) arg) (py_format ds arg True))
         else Outside_model)
      else if c = CHR ''}'' then
        (if d = CHR ''}'' then map_outcome ((#) CHR ''}'') (py_format ds arg used)
         else Raised (single_brace c))
      else map_outcome ((#) c) (py_format (d # ds) arg used))"

text \<open>\<open>format_hashtags\<close>: the list comprehension stops at the first exception.\<close>

fun format_hashtags :: "string list \<Rightarrow> string \<Rightarrow> string list outcome" where
  "format_hashtags [] tpl = Value []"
| "format_hashtags (tag # tags) tpl =
     (case py_format tpl tag False of
        Value s \<Rightarrow> map_outcome ((#) s) (format_hashtags tags tpl)
      | Raised e \<Rightarrow> Raised e
      | Outside_model \<Rightarrow> Outside_model)"

text \<open>
  \<open>text[:n]\<close>: a negative bound counts from the end. \<open>text.rfind(c)\<close>: the last index of
  the character, or -1.
\<close>

definition slice_to :: "string \<Rightarrow> int \<Rightarrow> string" where
  "slice_to s n = (if 0 \<le> n then take (nat n) s else take (length s - nat (- n)) s)"

definition rfind :: "string \<Rightarrow> char \<Rightarrow> int" where
  "rfind s c =
     (if c \<in> set s
      then int (length s) - 1 - int (length (takeWhile (\<lambda>x. x \<noteq> c) (rev s)))
      else - 1)"

definition truncate_text :: "string \<Rightarrow> int \<Rightarrow> string" where
  "truncate_text s max_length =
     (if int (length s) \<le> max_length then s
      else
        (let truncated = slice_to s max_length;
             last_space = rfind truncated CHR '' '';
             truncated = (if last_space > 0 then slice_to truncated last_space else truncated)
         in if length truncated < length s then truncated @ ''...'' else truncated))"

text \<open>\<open>" ".join(parts)\<close>.\<close>

fun join_space :: "string list \<Rightarrow> string" where
  "join_space [] = []"
| "join_space [x] = x"
| "join_space (x # y # ys) = x @ '' '' @ join_space (y # ys)"

text \<open>
  \<open>int(n / 2)\<close>: a floating-point division, then the rounding towards zero. Below
  \<open>2 ^ 53\<close> in absolute value the quotient is exact; from there on the division rounds,
  which is outside the model.
\<close>

definition int_half :: "int \<Rightarrow> int outcome" where
  "int_half n =
     (if - 9007199254740992 < n \<and> n < 9007199254740992
      then Value (if 0 \<le> n then n div 2 else - ((- n) div 2))
      else Outside_model)"

text \<open>The budget the body gets when the post has hashtags.\<close>

definition max_content_length :: "int \<Rightarrow> string \<Rightarrow> int outcome" where
  "max_content_length max_len hashtag_text =
     (let m = max_len - int (length hashtag_text) - 1
      in if m < 0 then int_half max_len else Value m)"

definition clean_text :: "string \<Rightarrow> string" where
  "clean_text raw = strip (remove_hashtags raw)"

definition adapted_text ::
  "string \<Rightarrow> string list \<Rightarrow> string list \<Rightarrow> int \<Rightarrow> string outcome" where
  "adapted_text raw tags formatted_hashtags max_len =
     (if tags \<noteq> [] then
        (let hashtag_text = join_space formatted_hashtags
         in map_outcome
              (\<lambda>budget.
                 let truncated_text = truncate_text (clean_text raw) budget
                 in if truncated_text \<noteq> [] \<and> hashtag_text \<noteq> []
                    then truncated_text @ '' '' @ hashtag_text
                    else if truncated_text \<noteq> [] then truncated_text else hashtag_text)
              (max_content_length max_len hashtag_text))
      else Value (truncate_text (clean_text raw) max_len))"

text \<open>
  The platform metadata. \<open>image_requirements.get("max_images", 0) > 0\<close> compares the
  stored value with a number; a value that is neither a number nor a boolean raises
  TypeError.
\<close>

definition requirement_set :: "(string \<times> jval) list \<Rightarrow> string \<Rightarrow> bool" where
  "requirement_set reqs k = (case map_of reqs k of None \<Rightarrow> False | Some v \<Rightarrow> truthy v)"

definition max_images_positive :: "(string \<times> jval) list \<Rightarrow> bool outcome" where
  "max_images_positive reqs =
     (case map_of reqs ''max_images'' of
        None \<Rightarrow> Value False
      | Some (JNum n) \<Rightarrow> Value (n > 0)
      | Some (JBool b) \<Rightarrow> Value b
      | Some v \<Rightarrow>
          Raised (TypeError (quoted ''>'' @ '' not supported between instances of ''
                    @ quoted (type_name v) @ '' and '' @ quoted ''int'')))"

definition platform_metadata ::
  "SocialPlatform \<Rightarrow> string option \<Rightarrow> (string \<times> jval) list \<Rightarrow> (string \<times> jval) list outcome" where
  "platform_metadata p image_ref reqs =
     (let has_image = (case image_ref of None \<Rightarrow> False | Some r \<Rightarrow> r \<noteq> []);
          md = (if p = INSTAGRAM \<and> requirement_set reqs ''required'' \<and> \<not> has_image
                then [(''warning'', JStr ''Instagram requires an image for posts'')] else [])
      in if p = TWITTER \<and> has_image then
           map_outcome (\<lambda>pos. if pos then AList.update ''images_count'' (JNum 1) md else md)
             (max_images_positive reqs)
         else Value md)"

text \<open>
  \<open>adapt_content_for_platform\<close>, in the order of the source: the hashtags are formatted,
  the text is put together, the metadata is filled.
\<close>

definition adapt_content_for_platform ::
  "string \<Rightarrow> string option \<Rightarrow> SocialPlatform \<Rightarrow> ContentAdaptationRules
     \<Rightarrow> PlatformSpecificContent outcome" where
  "adapt_content_for_platform raw image_ref p rules =
     (if \<not> list_all is_ascii raw then Outside_model
      else
        (let tags = extract_hashtags raw
         in bind (format_hashtags tags (hashtag_format rules)) (\<lambda>formatted_hashtags.
            bind (adapted_text raw tags formatted_hashtags (max_text_length rules)) (\<lambda>txt.
            map_outcome
              (\<lambda>md. \<lparr>platform = p,
                      content_text = txt,
                      image_reference = image_ref,
                      hashtags = tags,
                      psc_metadata = md\<rparr>)
              (platform_metadata p image_ref
                 (case image_requirements rules of None \<Rightarrow> [] | Some r \<Rightarrow> r))))))"

text \<open>The rules \<open>ContentSchedulerAgent.__init__\<close> installs.\<close>

fun adaptation_rules :: "SocialPlatform \<Rightarrow> ContentAdaptationRules" where
  "adaptation_rules TWITTER =
     \<lparr>rules_platform = TWITTER, max_text_length = 280, hashtag_format = ''#{}'',
      image_requirements = Some [(''max_images'', JNum 4)]\<rparr>"
| "adaptation_rules FACEBOOK =
     \<lparr>rules_platform = FACEBOOK, max_text_length = 5000, hashtag_format = ''#{}'',
      image_requirements = Some []\<rparr>"
| "adaptation_rules INSTAGRAM =
     \<lparr>rules_platform = INSTAGRAM, max_text_length = 2200, hashtag_format = ''#{}'',
      image_requirements = Some [(''required'', JBool True)]\<rparr>"
| "adaptation_rules LINKEDIN =
     \<lparr>rules_platform = LINKEDIN, max_text_length = 3000, hashtag_format = ''#{}'',
      image_requirements = Some []\<rparr>"

text \<open>Rules with the template of the agent and a chosen maximum, for closed instances.\<close>

definition example_rules :: "int \<Rightarrow> ContentAdaptationRules" where
  "example_rules M =
     \<lparr>rules_platform = FACEBOOK, max_text_length = M, hashtag_format = ''#{}'',
      image_requirements = None\<rparr>"

definition example_content :: "string \<Rightarrow> string list \<Rightarrow> PlatformSpecificContent" where
  "example_content txt tags =
     \<lparr>platform = FACEBOOK, content_text = txt, image_reference = None, hashtags = tags,
      psc_metadata = []\<rparr>"

section \<open>Scheduled posts and their storage (content_scheduler/models.py, storage.py)\<close>

text \<open>
  The maps of a post carry what their declared types hold: platform post ids are texts,
  credentials are objects per platform. A document loads back as the post it was written
  from.
\<close>

record ScheduledPost =
  post_id :: string
  user_id :: string
  raw_text :: string
  post_content_type :: ContentType
  post_image_reference :: "string option"
  target_platforms :: "SocialPlatform list"
  schedule_time :: nat
  post_status :: PostStatus
  platform_specific_content :: "(string \<times> PlatformSpecificContent) list"
  platform_post_ids :: "(string \<times> string) list"
  credentials :: "(string \<times> (string \<times> jval) list) list"
  post_created_at :: nat
  post_updated_at :: nat

text \<open>
  What the handlers take from outside: fresh identifiers, the parser and printer of ISO
  times, the image decoder, whether the database answers reads (\<open>find_one\<close>) and writes
  (\<open>replace_one\<close>), the media directory, and what sending a task to another agent does
  (it returns, \<open>None\<close>, or raises).
\<close>

record env =
  new_id :: string
  fromisoformat :: "string \<Rightarrow> nat option"
  isoformat :: "nat \<Rightarrow> string"
  decode_image :: "jval \<Rightarrow> string \<Rightarrow> bool"
  find_ok :: bool
  replace_ok :: bool
  media_storage_path :: string
  send_task :: "string \<Rightarrow> string \<Rightarrow> (string \<times> jval) list \<Rightarrow> exn option"

text \<open>
  \<open>PostStorage.save_post\<close> and \<open>get_post\<close>: an exception of the driver is caught. The
  document is written under \<open>_id = post.id\<close>, and the loaded post takes its id from
  \<open>_id\<close>.
\<close>

definition save_post ::
  "env \<Rightarrow> (string \<rightharpoonup> ScheduledPost) \<Rightarrow> ScheduledPost \<Rightarrow> bool \<times> (string \<rightharpoonup> ScheduledPost)" where
  "save_post e coll post =
     (if replace_ok e then (True, coll(post_id post \<mapsto> post)) else (False, coll))"

definition get_post ::
  "env \<Rightarrow> (string \<rightharpoonup> ScheduledPost) \<Rightarrow> string \<Rightarrow> ScheduledPost option" where
  "get_post e coll pid =
     (if find_ok e then map_option (\<lambda>post. post\<lparr>post_id := pid\<rparr>) (coll pid) else None)"

section \<open>The scheduler's job store\<close>

record job =
  job_id :: string
  run_date :: nat
  args :: "string list"

text \<open>
  Modelled from the spec: \<open>scheduler.add_job(..., id=job_id, replace_existing=True)\<close> is
  a call into the APScheduler library, which is not part of the sources. Section 4.3 of
  the specification: registering the same job id again replaces the prior due time and
  argument rather than creating a duplicate firing.
\<close>

definition add_job :: "job list \<Rightarrow> job \<Rightarrow> job list" where
  "add_job js j =
     (if job_id j \<in> set (map job_id js)
      then map (\<lambda>k. if job_id k = job_id j then j else k) js
      else js @ [j])"

section \<open>The content and scheduling agent (content_scheduler/agent.py)\<close>

text \<open>
  What is recorded of a run for the order of its effects: a post written to the store
  with its status, a task handed to \<open>send_task\<close> with its target.
\<close>

datatype event = Post_saved string PostStatus | Task_sent string string

text \<open>
  \<open>publish_queue\<close> is the attribute \<open>_publish_queue\<close>: absent (\<open>None\<close>) until \<open>start\<close> or
  the first firing creates it.
\<close>

record ContentSchedulerAgent =
  posts :: "string \<rightharpoonup> ScheduledPost"
  stored_tasks :: "string \<rightharpoonup> Task"
  jobs :: "job list"
  publish_queue :: "string list option"
  events :: "event list"

text \<open>\<open>_schedule_post_publication\<close>: the job id is derived from the post id.\<close>

definition schedule_post_publication ::
  "ContentSchedulerAgent \<Rightarrow> ScheduledPost \<Rightarrow> ContentSchedulerAgent" where
  "schedule_post_publication a post =
     a\<lparr>jobs := add_job (jobs a)
                 \<lparr>job_id = ''publish_post_'' @ post_id post,
                  run_date = schedule_time post,
                  args = [post_id post]\<rparr>\<rparr>"

text \<open>\<open>publish_post_wrapper\<close>, the job's callback: it only queues the post id.\<close>

definition publish_post_wrapper :: "ContentSchedulerAgent \<Rightarrow> string \<Rightarrow> ContentSchedulerAgent" where
  "publish_post_wrapper a pid =
     a\<lparr>publish_queue :=
         Some ((case publish_queue a of None \<Rightarrow> [] | Some q \<Rightarrow> q) @ [pid])\<rparr>"

text \<open>\<open>start\<close>: creates the queue when it is absent.\<close>

definition start :: "ContentSchedulerAgent \<Rightarrow> ContentSchedulerAgent" where
  "start a = (case publish_queue a of None \<Rightarrow> a\<lparr>publish_queue := Some []\<rparr> | Some q \<Rightarrow> a)"

subsection \<open>Publishing a post\<close>

definition opt_str :: "string option \<Rightarrow> jval" where
  "opt_str v = (case v of None \<Rightarrow> JNull | Some s \<Rightarrow> JStr s)"

text \<open>The payload of the \<open>publish_post\<close> task for one platform.\<close>

definition publish_data ::
  "ScheduledPost \<Rightarrow> string \<Rightarrow> string \<Rightarrow> PlatformSpecificContent \<Rightarrow> (string \<times> jval) list" where
  "publish_data post pid pname c =
     (let d = [(''user_id'', JStr (user_id post)),
               (''platform_specific_content'',
                  JObj [(''text'', JStr (content_text c)),
                        (''image_reference'', opt_str (image_reference c)),
                        (''hashtags'', JList (map JStr (hashtags c))),
                        (''metadata'', JObj (psc_metadata c))]),
               (pname @ ''_token'', JStr ''PLACEHOLDER_TOKEN''),
               (''socialspark_post_id'', JStr pid)]
      in if pname = ''facebook'' \<and> credentials post \<noteq> [] then
           (case map_of (credentials post) ''facebook'' of
              None \<Rightarrow> d
            | Some fb \<Rightarrow>
                if truthy (dict_get fb ''page_id'')
                then AList.update ''facebook_page_id'' (dict_get fb ''page_id'') d
                else d)
         else d)"

text \<open>
  One round of the loop over \<open>post.target_platforms\<close>: a platform without adapted content
  is skipped; otherwise the task is sent, and an exception of the sending is logged.
\<close>

definition publish_to_platform ::
  "env \<Rightarrow> ScheduledPost \<Rightarrow> string \<Rightarrow> ContentSchedulerAgent \<Rightarrow> SocialPlatform
     \<Rightarrow> ContentSchedulerAgent" where
  "publish_to_platform e post pid a p =
     (let pname = SocialPlatform_value p
      in case map_of (platform_specific_content post) pname of
           None \<Rightarrow> a
         | Some c \<Rightarrow>
             (let target = pname @ ''-posting-agent'';
                  sent = send_task e target ''publish_post''
                           [(''id'', JStr (new_id e)),
                            (''content_type'', JStr ''application/json''),
                            (''data'', JObj (publish_data post pid pname c))]
              in a\<lparr>events := events a @ [Task_sent target pid]\<rparr>))"

text \<open>
  \<open>_publish_post\<close>: the status is set and saved first (the result of the save is not
  looked at), then the platforms are gone through.
\<close>

definition publish_post ::
  "env \<Rightarrow> nat \<Rightarrow> ContentSchedulerAgent \<Rightarrow> string \<Rightarrow> ContentSchedulerAgent" where
  "publish_post e now a pid =
     (case get_post e (posts a) pid of
        None \<Rightarrow> a
      | Some post \<Rightarrow>
          (let post' = post\<lparr>post_status := PUBLISHED, post_updated_at := now\<rparr>;
               saved = save_post e (posts a) post';
               a1 = a\<lparr>posts := snd saved,
                      events := events a @ (if fst saved then [Post_saved pid PUBLISHED] else [])\<rparr>
           in foldl (publish_to_platform e post' pid) a1 (target_platforms post')))"

subsection \<open>The publish queue and its drain\<close>

text \<open>
  The loop \<open>for post_id in list(self._publish_queue)\<close> of the startup drain and of the
  periodic drain, over a handler that returns or raises: the handler is awaited first
  and the entry removed after it returned; when it raised, the entry stays. Each call is
  recorded with the queue as it stood when the handler was called.
\<close>

type_synonym publish_handler =
  "ContentSchedulerAgent \<Rightarrow> string \<Rightarrow> exn option \<times> ContentSchedulerAgent"

definition queue_of :: "ContentSchedulerAgent \<Rightarrow> string list" where
  "queue_of a = (case publish_queue a of None \<Rightarrow> [] | Some q \<Rightarrow> q)"

fun drain_items ::
  "publish_handler \<Rightarrow> string list \<Rightarrow> ContentSchedulerAgent \<times> (string \<times> string list) list
     \<Rightarrow> ContentSchedulerAgent \<times> (string \<times> string list) list" where
  "drain_items h [] (a, calls) = (a, calls)"
| "drain_items h (pid # rest) (a, calls) =
     (case h a pid of
        (None, a') \<Rightarrow>
          drain_items h rest
            (a'\<lparr>publish_queue := Some (remove1 pid (queue_of a'))\<rparr>,
             calls @ [(pid, queue_of a)])
      | (Some e, a') \<Rightarrow> drain_items h rest (a', calls @ [(pid, queue_of a)]))"

text \<open>
  One drain pass (\<open>process_publish_queue\<close>, and each round of
  \<open>check_queue_periodically\<close> after its sleep): nothing when the queue is absent or
  empty, else the loop over a copy of the queue.
\<close>

definition process_publish_queue ::
  "publish_handler \<Rightarrow> ContentSchedulerAgent
     \<Rightarrow> ContentSchedulerAgent \<times> (string \<times> string list) list" where
  "process_publish_queue h a =
     (case publish_queue a of
        None \<Rightarrow> (a, [])
      | Some q \<Rightarrow> if q = [] then (a, []) else drain_items h q (a, []))"

text \<open>\<open>_publish_post\<close> as the drain's handler: it has no statement that raises.\<close>

definition publish_post_handler :: "env \<Rightarrow> nat \<Rightarrow> publish_handler" where
  "publish_post_handler e now a pid = (None, publish_post e now a pid)"

text \<open>
  The order the specification asks for, from its words: an entry is removed from the
  queue before its handler is invoked, so no call sees its own entry in the queue.
\<close>

definition removed_before_invoked :: "(string \<times> string list) list \<Rightarrow> bool" where
  "removed_before_invoked calls = list_all (\<lambda>(pid, q). pid \<notin> set q) calls"

text \<open>A handler that raises on every call, for the closed instances below.\<close>

definition failing_publish_handler :: publish_handler where
  "failing_publish_handler a pid = (Some (Exception ''platform agent unreachable''), a)"

subsection \<open>Task handlers\<close>

text \<open>\<open>if c: raise e\<close>.\<close>

definition raise_if :: "bool \<Rightarrow> exn \<Rightarrow> unit outcome" where
  "raise_if c e = (if c then Raised e else Value ())"

text \<open>\<open>extract_data_part_by_content_type\<close> (src/core/utils.py): the first match.\<close>

fun extract_data_part_by_content_type :: "DataPart list \<Rightarrow> string \<Rightarrow> DataPart option" where
  "extract_data_part_by_content_type [] ct = None"
| "extract_data_part_by_content_type (dp # dps) ct =
     (if content_type dp = ct then Some dp else extract_data_part_by_content_type dps ct)"

text \<open>
  The handlers' \<open>except Exception\<close> branch: the message goes into the metadata and the
  task is marked failed.
\<close>

definition fail_task :: "Task \<Rightarrow> exn \<Rightarrow> nat \<Rightarrow> Task" where
  "fail_task task e now = update_status (set_metadata task ''error'' (JStr (str e))) FAILED now"

definition no_attribute :: "jval \<Rightarrow> string \<Rightarrow> exn" where
  "no_attribute v attr =
     AttributeError (quoted (type_name v) @ '' object has no attribute '' @ quoted attr)"

subsubsection \<open>Status updates of posts\<close>

text \<open>
  The assignment \<open>post.platform_post_ids[platform] = platform_post_id\<close>. A list or an
  object is no dictionary key (TypeError). The map holds texts; a key or an id of
  another type is outside the model.
\<close>

definition set_platform_post_id :: "ScheduledPost \<Rightarrow> jval \<Rightarrow> jval \<Rightarrow> ScheduledPost outcome" where
  "set_platform_post_id post pf ppid =
     (case pf of
        JList xs \<Rightarrow> Raised (TypeError (''unhashable type: '' @ quoted ''list''))
      | JObj kvs \<Rightarrow> Raised (TypeError (''unhashable type: '' @ quoted ''dict''))
      | JStr p \<Rightarrow>
          (case ppid of
             JStr i \<Rightarrow> Value (post\<lparr>platform_post_ids := AList.update p i (platform_post_ids post)\<rparr>)
           | _ \<Rightarrow> Outside_model)
      | _ \<Rightarrow> Outside_model)"

text \<open>The \<open>try\<close> block of \<open>_handle_post_status_update\<close>. Post ids are texts.\<close>

definition post_status_update_body ::
  "env \<Rightarrow> nat \<Rightarrow> ContentSchedulerAgent \<Rightarrow> Task \<Rightarrow> ContentSchedulerAgent outcome" where
  "post_status_update_body e now a task =
     (case extract_data_part_by_content_type (data_parts task) ''application/json'' of
        None \<Rightarrow> Raised (ValueError ''No content data found in task'')
      | Some dp \<Rightarrow>
          (let d = data dp;
               pid = dict_get d ''socialspark_post_id'';
               pf = dict_get d ''platform'';
               st = dict_get d ''status'';
               ppid = dict_get d ''platform_post_id''
           in bind (raise_if (\<not> truthy pid) (ValueError ''socialspark_post_id is required'')) (\<lambda>_.
              bind (raise_if (\<not> truthy pf) (ValueError ''platform is required'')) (\<lambda>_.
              bind (raise_if (\<not> truthy st) (ValueError ''status is required'')) (\<lambda>_.
              case (case pid of JStr s \<Rightarrow> get_post e (posts a) s | _ \<Rightarrow> None) of
                None \<Rightarrow> Value a
              | Some post \<Rightarrow>
                  bind (if st = JStr ''success'' \<and> truthy ppid
                        then set_platform_post_id post pf ppid else Value post) (\<lambda>post1.
                  Value (a\<lparr>posts := snd (save_post e (posts a) (post1\<lparr>post_updated_at := now\<rparr>)),
                           stored_tasks := snd (save_task (replace_ok e) (stored_tasks a) task)\<rparr>)))))))"

definition handle_post_status_update ::
  "env \<Rightarrow> nat \<Rightarrow> ContentSchedulerAgent \<Rightarrow> Task \<Rightarrow> (Task \<times> ContentSchedulerAgent) outcome" where
  "handle_post_status_update e now a task =
     (case post_status_update_body e now a task of
        Value a' \<Rightarrow> Value (task, a')
      | Raised ex \<Rightarrow> Value (fail_task task ex now, a)
      | Outside_model \<Rightarrow> Outside_model)"

subsubsection \<open>Processing and scheduling a post\<close>

definition lower :: "string \<Rightarrow> string" where
  "lower s = map (\<lambda>c. let n = (of_char c :: nat)
                       in if 65 \<le> n \<and> n \<le> 90 then char_of (n + 32) else c) s"

text \<open>\<open>s.replace('Z', '+00:00')\<close>.\<close>

definition replace_Z :: "string \<Rightarrow> string" where
  "replace_Z s = concat (map (\<lambda>c. if c = CHR ''Z'' then ''+00:00'' else [c]) s)"

text \<open>
  What \<open>for platform_str in target_platforms\<close> goes through: the elements of a list, the
  characters of a text, the keys of an object; a number or a boolean is not iterable.
\<close>

fun iter_items :: "jval \<Rightarrow> jval list outcome" where
  "iter_items (JList xs) = Value xs"
| "iter_items (JStr s) = Value (map (\<lambda>c. JStr [c]) s)"
| "iter_items (JObj kvs) = Value (map (\<lambda>kv. JStr (fst kv)) kvs)"
| "iter_items v = Raised (TypeError (quoted (type_name v) @ '' object is not iterable''))"

text \<open>
  The loop that parses the platforms: an unsupported name is skipped with a warning; an
  element that is no text has no \<open>lower\<close>.
\<close>

fun parse_platforms :: "jval list \<Rightarrow> SocialPlatform list outcome" where
  "parse_platforms [] = Value []"
| "parse_platforms (JStr s # vs) =
     (case SocialPlatform_of (lower s) of
        Some p \<Rightarrow> map_outcome ((#) p) (parse_platforms vs)
      | None \<Rightarrow> parse_platforms vs)"
| "parse_platforms (v # vs) = Raised (no_attribute v ''lower'')"

text \<open>\<open>datetime.fromisoformat(schedule_time_str.replace('Z', '+00:00'))\<close> in its \<open>try\<close>.\<close>

definition parse_schedule_time :: "env \<Rightarrow> jval \<Rightarrow> nat outcome" where
  "parse_schedule_time e v =
     (case v of
        JStr s \<Rightarrow>
          (case fromisoformat e (replace_Z s) of
             Some t \<Rightarrow> Value t
           | None \<Rightarrow> Raised (ValueError (''Invalid schedule time format: '' @ s)))
      | _ \<Rightarrow> Raised (no_attribute v ''replace''))"

text \<open>\<open>os.path.join(dir, name)\<close> for a relative file name.\<close>

definition path_join :: "string \<Rightarrow> string \<Rightarrow> string" where
  "path_join dir name =
     (if dir = [] \<or> last dir = CHR ''/'' then dir @ name else dir @ ''/'' @ name)"

text \<open>
  The adapted content of every target platform, in the order of the list (a later entry
  for the same platform overwrites the earlier one).
\<close>

fun adapt_all ::
  "string \<Rightarrow> string option \<Rightarrow> SocialPlatform list
     \<Rightarrow> (string \<times> PlatformSpecificContent) list outcome" where
  "adapt_all raw image_ref [] = Value []"
| "adapt_all raw image_ref (p # ps) =
     bind (adapt_content_for_platform raw image_ref p (adaptation_rules p)) (\<lambda>c.
     map_outcome (\<lambda>cs. (SocialPlatform_value p, c) # cs) (adapt_all raw image_ref ps))"

text \<open>
  The fields a \<open>ScheduledPost\<close> declares as texts and as a map of objects, read from the
  payload: a value of another type is outside the model.
\<close>

definition as_str :: "jval \<Rightarrow> string outcome" where
  "as_str v = (case v of JStr s \<Rightarrow> Value s | _ \<Rightarrow> Outside_model)"

fun as_objects :: "(string \<times> jval) list \<Rightarrow> (string \<times> (string \<times> jval) list) list outcome" where
  "as_objects [] = Value []"
| "as_objects ((k, JObj ob) # kvs) = map_outcome ((#) (k, ob)) (as_objects kvs)"
| "as_objects (kv # kvs) = Outside_model"

definition as_credentials :: "jval \<Rightarrow> (string \<times> (string \<times> jval) list) list outcome" where
  "as_credentials v =
     (if \<not> truthy v then Value []
      else case v of JObj kvs \<Rightarrow> as_objects kvs | _ \<Rightarrow> Outside_model)"

text \<open>
  The \<open>try\<close> block of \<open>_handle_process_schedule_post\<close>. It returns the agent, the post id
  and the schedule time for the task's metadata.
\<close>

definition process_schedule_post_body ::
  "env \<Rightarrow> nat \<Rightarrow> ContentSchedulerAgent \<Rightarrow> Task
     \<Rightarrow> (ContentSchedulerAgent \<times> string \<times> nat) outcome" where
  "process_schedule_post_body e now a task =
     (case extract_data_part_by_content_type (data_parts task) ''application/json'' of
        None \<Rightarrow> Raised (ValueError ''No content data found in task'')
      | Some dp \<Rightarrow>
          (let d = data dp;
               uid = dict_get d ''user_id'';
               raw = dict_get d ''raw_text'';
               image_data = dict_get d ''image_data'';
               tps = (case map_of d ''target_platforms'' of None \<Rightarrow> JList [] | Some v \<Rightarrow> v);
               sts = dict_get d ''schedule_time'';
               creds = (case map_of d ''social_media_credentials'' of
                          None \<Rightarrow> JObj [] | Some v \<Rightarrow> v)
           in bind (raise_if (\<not> truthy uid) (ValueError ''user_id is required'')) (\<lambda>_.
              bind (raise_if (\<not> truthy raw) (ValueError ''raw_text is required'')) (\<lambda>_.
              bind (raise_if (\<not> truthy tps) (ValueError ''target_platforms is required'')) (\<lambda>_.
              bind (raise_if (\<not> truthy sts) (ValueError ''schedule_time is required'')) (\<lambda>_.
              bind (bind (iter_items tps) parse_platforms) (\<lambda>platform_list.
              bind (raise_if (platform_list = [])
                      (ValueError ''No valid target platforms specified'')) (\<lambda>_.
              bind (parse_schedule_time e sts) (\<lambda>time.
              let pid = new_id e;
                  image_path = path_join (media_storage_path e) (pid @ ''.jpg'');
                  image_ref = (if truthy image_data \<and> decode_image e image_data image_path
                               then Some image_path else None)
              in bind (as_str uid) (\<lambda>uid_s.
                 bind (as_str raw) (\<lambda>raw_s.
                 bind (as_credentials creds) (\<lambda>creds_o.
                 bind (adapt_all raw_s image_ref platform_list) (\<lambda>adapted.
                 let post = \<lparr>post_id = pid, user_id = uid_s, raw_text = raw_s,
                             post_content_type = (if truthy image_data then IMAGE else TEXT),
                             post_image_reference = image_ref,
                             target_platforms = platform_list,
                             schedule_time = time, post_status = SCHEDULED,
                             platform_specific_content =
                               foldl (\<lambda>m kv. AList.update (fst kv) (snd kv) m) [] adapted,
                             platform_post_ids = [], credentials = creds_o,
                             post_created_at = now, post_updated_at = now\<rparr>;
                     saved = save_post e (posts a) post
                 in bind (raise_if (\<not> fst saved) (ValueError (''Failed to save post '' @ pid))) (\<lambda>_.
                    let a1 = schedule_post_publication (a\<lparr>posts := snd saved\<rparr>) post;
                        a2 = a1\<lparr>stored_tasks :=
                                  snd (save_task (replace_ok e) (stored_tasks a1) task)\<rparr>
                    in Value (a2, pid, time)))))))))))))))"

definition handle_process_schedule_post ::
  "env \<Rightarrow> nat \<Rightarrow> ContentSchedulerAgent \<Rightarrow> Task \<Rightarrow> (Task \<times> ContentSchedulerAgent) outcome" where
  "handle_process_schedule_post e now a task =
     (case process_schedule_post_body e now a task of
        Value (a', pid, time) \<Rightarrow>
          Value (set_metadata (set_metadata task ''post_id'' (JStr pid))
                   ''schedule_time'' (JStr (isoformat e time)), a')
      | Raised ex \<Rightarrow> Value (fail_task task ex now, a)
      | Outside_model \<Rightarrow> Outside_model)"

text \<open>
  A handler of the scheduler as \<open>_process_task\<close> awaits it, over the agent's state at the
  call: it returns, having mutated the task. On a payload outside the model the task is
  taken as it came.
\<close>

definition registered ::
  "(nat \<Rightarrow> Task \<Rightarrow> (Task \<times> ContentSchedulerAgent) outcome) \<Rightarrow> handler" where
  "registered f task now =
     (case f now task of
        Value (task', a') \<Rightarrow> (None, task')
      | Raised ex \<Rightarrow> (Some ex, task)
      | Outside_model \<Rightarrow> (None, task))"

text \<open>Concrete values used in the closed instances below.\<close>

definition example_env :: env where
  "example_env =
     \<lparr>new_id = ''id-1'', fromisoformat = (\<lambda>s. if s = ''2030-01-01T10:00:00'' then Some 100 else None),
      isoformat = (\<lambda>t. ''2030-01-01T10:00:00''), decode_image = (\<lambda>v p. True),
      find_ok = True, replace_ok = True, media_storage_path = ''./media'',
      send_task = (\<lambda>target ty d. Some (Exception ''connection refused''))\<rparr>"

definition example_post :: ScheduledPost where
  "example_post =
     \<lparr>post_id = ''p1'', user_id = ''u1'', raw_text = ''Hello #world #test'',
      post_content_type = TEXT, post_image_reference = None,
      target_platforms = [FACEBOOK, TWITTER], schedule_time = 100, post_status = SCHEDULED,
      platform_specific_content =
        [(''facebook'', \<lparr>platform = FACEBOOK, content_text = ''Hello #world #test'',
                          image_reference = None, hashtags = [''world'', ''test''],
                          psc_metadata = []\<rparr>),
         (''twitter'', \<lparr>platform = TWITTER, content_text = ''Hello #world #test'',
                         image_reference = None, hashtags = [''world'', ''test''],
                         psc_metadata = []\<rparr>)],
      platform_post_ids = [], credentials = [], post_created_at = 1, post_updated_at = 1\<rparr>"

definition example_scheduler :: ContentSchedulerAgent where
  "example_scheduler =
     \<lparr>posts = [''p1'' \<mapsto> example_post], stored_tasks = Map.empty, jobs = [],
      publish_queue = Some [''p1''], events = []\<rparr>"

definition failure_update_task :: Task where
  "failure_update_task =
     example_task\<lparr>data_parts :=
       [\<lparr>dp_id = ''d1'', content_type = ''application/json'',
         data = [(''socialspark_post_id'', JStr ''p1''), (''platform'', JStr ''facebook''),
                 (''status'', JStr ''failure''), (''error_message'', JStr ''token expired'')]\<rparr>]\<rparr>"

definition empty_schedule_task :: Task where
  "empty_schedule_task =
     example_task\<lparr>task_type := ''process_and_schedule_post'', task_status := IN_PROGRESS\<rparr>"

text \<open>The scheduler as a base agent: its two handlers in the handler table.\<close>

definition scheduler_agent :: "env \<Rightarrow> ContentSchedulerAgent \<Rightarrow> BaseAgent" where
  "scheduler_agent e a =
     \<lparr>agent_id = ''content-scheduler-agent'',
      task_handlers =
        [''process_and_schedule_post'' \<mapsto> registered (\<lambda>now. handle_process_schedule_post e now a),
         ''post_status_update'' \<mapsto> registered (\<lambda>now. handle_post_status_update e now a)],
      tasks = Map.empty\<rparr>"

section \<open>Task lifecycle\<close>

text \<open>
  Claim C1, as amended. \<open>Task.update_status\<close> checks no transition: it sets the status it
  is given, from any state. So PATCH /tasks/{task_id} with a valid status string leaves
  the stored task in that status, whatever it was before, and \<open>_process_task\<close> leaves the
  task in one of the two states completed and failed.
\<close>

theorem status_writes_unchecked:
  "task_status (update_status task st now) = st \<and>
   (tasks a tid = Some task \<and> TaskStatus_of v = Some st \<longrightarrow>
      (\<exists>task'. update_task a tid [Status_str v] now
                  = (Returned task', a\<lparr>tasks := (tasks a)(tid \<mapsto> task')\<rparr>)
               \<and> task_status task' = st)) \<and>
   (\<forall>task'. process_task a task now = Some task' \<longrightarrow>
      task_status task' = COMPLETED \<or> task_status task' = FAILED)"
proof (intro conjI allI impI)
  show "task_status (update_status task st now) = st"
    by (simp add: update_status_def)
next
  assume h: "tasks a tid = Some task \<and> TaskStatus_of v = Some st"
  then show "\<exists>task'. update_task a tid [Status_str v] now
                  = (Returned task', a\<lparr>tasks := (tasks a)(tid \<mapsto> task')\<rparr>)
               \<and> task_status task' = st"
    by (simp add: update_task_def update_status_def Let_def)
next
  fix task'
  assume "process_task a task now = Some task'"
  then show "task_status task' = COMPLETED \<or> task_status task' = FAILED"
    by (auto simp: process_task_def update_status_def set_metadata_def
             split: option.splits prod.splits)
qed

theorem status_writes_unchecked_witness:
  "tasks completed_agent ''t1'' = Some (example_task\<lparr>task_status := COMPLETED\<rparr>) \<and>
   TaskStatus_of ''pending'' = Some PENDING \<and>
   (\<exists>task'. update_task completed_agent ''t1'' [Status_str ''pending''] 9
                = (Returned task',
                   completed_agent\<lparr>tasks := (tasks completed_agent)(''t1'' \<mapsto> task')\<rparr>)
              \<and> task_status task' = PENDING) \<and>
   process_task example_agent example_task 9 = Some (update_status example_task COMPLETED 9) \<and>
   task_status (update_status example_task COMPLETED 9) = COMPLETED"
proof -
  have h: "tasks completed_agent ''t1'' = Some (example_task\<lparr>task_status := COMPLETED\<rparr>) \<and>
           TaskStatus_of ''pending'' = Some PENDING"
    by (simp add: completed_agent_def TaskStatus_of_def)
  have p: "process_task example_agent example_task 9
             = Some (update_status example_task COMPLETED 9)"
    by (simp add: process_task_def example_agent_def example_task_def ok_handler_def)
  from status_writes_unchecked [of "example_task\<lparr>task_status := COMPLETED\<rparr>" PENDING 9
        completed_agent "''t1''" "''pending''"] h
  have "\<exists>task'. update_task completed_agent ''t1'' [Status_str ''pending''] 9
                  = (Returned task',
                     completed_agent\<lparr>tasks := (tasks completed_agent)(''t1'' \<mapsto> task')\<rparr>)
               \<and> task_status task' = PENDING"
    by blast
  moreover from status_writes_unchecked [of example_task COMPLETED 9 example_agent]
  have "task_status (update_status example_task COMPLETED 9) = COMPLETED" by blast
  ultimately show ?thesis using h p by blast
qed

text \<open>
  Claim C1 as stated fails: a PATCH with \<open>{"status": "pending"}\<close> moves a completed task
  back to pending, which is no edge of the specification and leaves a terminal state.
\<close>

theorem terminal_state_left_counterexample:
  "map_option task_status (tasks completed_agent ''t1'') = Some COMPLETED \<and>
   map_option task_status
     (tasks (snd (update_task completed_agent ''t1'' [Status_str ''pending''] 9)) ''t1'')
     = Some PENDING \<and>
   \<not> spec_edge COMPLETED PENDING"
  by (simp add: completed_agent_def update_task_def TaskStatus_of_def update_status_def
        Let_def spec_edge_def example_task_def)

section \<open>Receiving a task\<close>

lemma handle_incoming_task_accepted:
  assumes "target_agent_id task = agent_id a" "task_handlers a (task_type task) \<noteq> None"
  shows "handle_incoming_task a bg task now =
           (Returned (update_status task IN_PROGRESS now),
            a\<lparr>tasks := (tasks a)(task_id task \<mapsto> update_status task IN_PROGRESS now)\<rparr>,
            bg @ [update_status task IN_PROGRESS now])"
  using assms by (simp add: handle_incoming_task_def Let_def)

text \<open>
  Claim C5. \<open>_handle_incoming_task\<close> answers 400 when the task's target is another agent,
  and 400 when no handler is registered for the task's type; in both cases the agent's
  task map (and the background work) is as before. Otherwise it returns the task in
  status in_progress, stores that task under its id and schedules \<open>_process_task\<close> for
  it.
\<close>

theorem handle_incoming_task_contract:
  "(target_agent_id task \<noteq> agent_id a \<longrightarrow>
      (\<exists>detail. handle_incoming_task a bg task now = (HTTPException 400 detail, a, bg))) \<and>
   (target_agent_id task = agent_id a \<and> task_handlers a (task_type task) = None \<longrightarrow>
      (\<exists>detail. handle_incoming_task a bg task now = (HTTPException 400 detail, a, bg))) \<and>
   (target_agent_id task = agent_id a \<and> task_handlers a (task_type task) \<noteq> None \<longrightarrow>
      (\<exists>task' a'. handle_incoming_task a bg task now = (Returned task', a', bg @ [task'])
          \<and> task' = task\<lparr>task_status := IN_PROGRESS, updated_at := now\<rparr>
          \<and> task_status task' = IN_PROGRESS
          \<and> tasks a' = (tasks a)(task_id task \<mapsto> task')
          \<and> agent_id a' = agent_id a))"
  by (auto simp: handle_incoming_task_def update_status_def Let_def)

theorem handle_incoming_task_contract_witness:
  "(\<exists>detail. handle_incoming_task example_agent []
        (example_task\<lparr>target_agent_id := ''facebook-posting-agent''\<rparr>) 7
      = (HTTPException 400 detail, example_agent, [])) \<and>
   (\<exists>detail. handle_incoming_task example_agent []
        (example_task\<lparr>task_type := ''publish_post''\<rparr>) 7
      = (HTTPException 400 detail, example_agent, [])) \<and>
   (\<exists>task' a'. handle_incoming_task example_agent [] example_task 7
        = (Returned task', a', [] @ [task'])
      \<and> task' = example_task\<lparr>task_status := IN_PROGRESS, updated_at := 7\<rparr>
      \<and> task_status task' = IN_PROGRESS
      \<and> tasks a' = (tasks example_agent)(task_id example_task \<mapsto> task')
      \<and> agent_id a' = agent_id example_agent)"
proof -
  have 1: "target_agent_id (example_task\<lparr>target_agent_id := ''facebook-posting-agent''\<rparr>)
             \<noteq> agent_id example_agent"
    by (simp add: example_agent_def)
  have 2: "target_agent_id (example_task\<lparr>task_type := ''publish_post''\<rparr>) = agent_id example_agent
           \<and> task_handlers example_agent (task_type (example_task\<lparr>task_type := ''publish_post''\<rparr>))
               = None"
    by (simp add: example_agent_def example_task_def)
  have 3: "target_agent_id example_task = agent_id example_agent
           \<and> task_handlers example_agent (task_type example_task) \<noteq> None"
    by (simp add: example_agent_def example_task_def)
  show ?thesis
    using 1 2 3
      handle_incoming_task_contract
        [of "example_task\<lparr>target_agent_id := ''facebook-posting-agent''\<rparr>" example_agent "[]" 7]
      handle_incoming_task_contract
        [of "example_task\<lparr>task_type := ''publish_post''\<rparr>" example_agent "[]" 7]
      handle_incoming_task_contract [of example_task example_agent "[]" 7]
    by blast
qed

text \<open>
  Claim C6, as amended. When the handler raises, \<open>_process_task\<close> leaves the task in
  status failed, never in_progress, and its metadata holds \<open>str(e)\<close> under the key
  \<open>error\<close>: a non-empty text exactly when the exception carries a non-empty message.
\<close>

theorem process_task_handler_raises:
  "task_handlers a (task_type task) = Some h \<Longrightarrow> h task now = (Some e, task') \<Longrightarrow>
   \<exists>t md. process_task a task now = Some t \<and> task_status t = FAILED \<and>
      task_status t \<noteq> IN_PROGRESS \<and> task_metadata t = Some md \<and>
      map_of md ''error'' = Some (JStr (str e)) \<and>
      (truthy (JStr (str e)) = (str e \<noteq> []))"
  by (simp add: process_task_def set_metadata_def update_status_def Let_def
        update_conv' map_of_map_restrict)

theorem process_task_handler_raises_witness:
  "\<exists>t md. process_task (register_task_handler example_agent ''post_status_update''
                          (raising_handler ''No content data found in task''))
               example_task 9 = Some t \<and>
      task_status t = FAILED \<and> task_status t \<noteq> IN_PROGRESS \<and> task_metadata t = Some md \<and>
      map_of md ''error'' = Some (JStr (str (ValueError ''No content data found in task''))) \<and>
      (truthy (JStr (str (ValueError ''No content data found in task'')))
         = (str (ValueError ''No content data found in task'') \<noteq> []))"
proof -
  have 1: "task_handlers (register_task_handler example_agent ''post_status_update''
                            (raising_handler ''No content data found in task''))
             (task_type example_task)
           = Some (raising_handler ''No content data found in task'')"
    by (simp add: register_task_handler_def example_task_def)
  have 2: "raising_handler ''No content data found in task'' example_task 9
           = (Some (ValueError ''No content data found in task''), example_task)"
    by (simp add: raising_handler_def)
  show ?thesis
    by (rule process_task_handler_raises [OF 1 2])
qed

text \<open>
  Claim C6 as stated fails on the message: a handler that raises an exception without a
  message (\<open>raise ValueError()\<close>) leaves the empty text under \<open>error\<close>.
\<close>

theorem empty_error_message_counterexample:
  "map_option (\<lambda>t. (task_status t, task_metadata t))
     (process_task (register_task_handler example_agent ''post_status_update''
                      (raising_handler ''''))
        example_task 9)
   = Some (FAILED, Some [(''error'', JStr '''')])"
  by (simp add: process_task_def register_task_handler_def example_task_def
        raising_handler_def set_metadata_def update_status_def)

text \<open>
  Claim C9. A task received a second time replaces the record stored under its id: the
  agent's task map after both requests is the map after the second request alone, one
  record under the id, and it differs from the map after the first request at most in
  the record's \<open>updated_at\<close>. \<open>TaskStorage.save_task\<close> is an upsert keyed by the task's
  id: a save that goes through returns \<open>True\<close> and leaves the task under its id and every
  other key of the collection as it was, a save that fails returns \<open>False\<close> and leaves
  the collection as it was, and saving the same task twice leaves the collection as
  saving it once does.
\<close>

theorem receive_and_save_idempotent:
  "target_agent_id task = agent_id a \<Longrightarrow> task_handlers a (task_type task) \<noteq> None \<Longrightarrow>
   (let a1 = fst (snd (handle_incoming_task a bg task n1));
        a2 = fst (snd (handle_incoming_task a1 bg' task n2))
    in a2 = fst (snd (handle_incoming_task a bg' task n2)) \<and>
       tasks a2 = (tasks a)(task_id task \<mapsto> update_status task IN_PROGRESS n2) \<and>
       tasks a2 = (tasks a1)(task_id task \<mapsto> (the (tasks a1 (task_id task)))\<lparr>updated_at := n2\<rparr>)) \<and>
   save_task up (snd (save_task up coll task)) task = save_task up coll task \<and>
   fst (save_task True coll task) = True \<and>
   snd (save_task True coll task) (task_id task) = Some task \<and>
   (\<forall>k. k \<noteq> task_id task \<longrightarrow> snd (save_task True coll task) k = coll k) \<and>
   save_task False coll task = (False, coll)"
proof -
  assume t: "target_agent_id task = agent_id a" and h: "task_handlers a (task_type task) \<noteq> None"
  define a1 where "a1 = a\<lparr>tasks := (tasks a)(task_id task \<mapsto> update_status task IN_PROGRESS n1)\<rparr>"
  define a2 where "a2 = a\<lparr>tasks := (tasks a)(task_id task \<mapsto> update_status task IN_PROGRESS n2)\<rparr>"
  have r1: "fst (snd (handle_incoming_task a bg task n1)) = a1"
    by (simp add: handle_incoming_task_accepted [OF t h] a1_def)
  have t1: "target_agent_id task = agent_id a1" and h1: "task_handlers a1 (task_type task) \<noteq> None"
    using t h by (simp_all add: a1_def)
  have r2: "fst (snd (handle_incoming_task a1 bg' task n2)) = a2"
    unfolding handle_incoming_task_accepted [OF t1 h1] by (simp add: a1_def a2_def)
  have r3: "fst (snd (handle_incoming_task a bg' task n2)) = a2"
    by (simp add: handle_incoming_task_accepted [OF t h] a2_def)
  have m: "tasks a2 = (tasks a)(task_id task \<mapsto> update_status task IN_PROGRESS n2)"
    by (simp add: a2_def)
  have u: "(update_status task IN_PROGRESS n1)\<lparr>updated_at := n2\<rparr> = update_status task IN_PROGRESS n2"
    by (simp add: update_status_def)
  have m1: "tasks a2 = (tasks a1)(task_id task \<mapsto> (the (tasks a1 (task_id task)))\<lparr>updated_at := n2\<rparr>)"
    by (simp add: a1_def a2_def u)
  have s: "save_task up (snd (save_task up coll task)) task = save_task up coll task"
    by (cases up) (simp_all add: save_task_def)
  have w: "fst (save_task True coll task) = True \<and>
           snd (save_task True coll task) (task_id task) = Some task \<and>
           (\<forall>k. k \<noteq> task_id task \<longrightarrow> snd (save_task True coll task) k = coll k) \<and>
           save_task False coll task = (False, coll)"
    by (simp add: save_task_def)
  show ?thesis
    unfolding Let_def r1 r2 r3 using m m1 s w by blast
qed

theorem receive_and_save_idempotent_witness:
  "(let a1 = fst (snd (handle_incoming_task example_agent [] example_task 3));
        a2 = fst (snd (handle_incoming_task a1 [] example_task 8))
    in a2 = fst (snd (handle_incoming_task example_agent [] example_task 8)) \<and>
       tasks a2 = (tasks example_agent)
                    (task_id example_task \<mapsto> update_status example_task IN_PROGRESS 8) \<and>
       tasks a2 = (tasks a1)(task_id example_task \<mapsto>
                      (the (tasks a1 (task_id example_task)))\<lparr>updated_at := 8\<rparr>)) \<and>
   save_task True (snd (save_task True example_collection example_task)) example_task
     = save_task True example_collection example_task \<and>
   fst (save_task True example_collection example_task) = True \<and>
   snd (save_task True example_collection example_task) (task_id example_task)
     = Some example_task \<and>
   snd (save_task True example_collection example_task) ''t0''
     = Some (example_task\<lparr>task_id := ''t0'', task_status := FAILED\<rparr>) \<and>
   save_task False example_collection example_task = (False, example_collection)"
proof -
  have 1: "target_agent_id example_task = agent_id example_agent"
    by (simp add: example_agent_def example_task_def)
  have 2: "task_handlers example_agent (task_type example_task) \<noteq> None"
    by (simp add: example_agent_def example_task_def)
  have 3: "''t0'' \<noteq> task_id example_task"
    by (simp add: example_task_def)
  note inst = receive_and_save_idempotent
                [OF 1 2, where ?n1.0 = 3 and ?n2.0 = 8 and bg = "[]" and bg' = "[]" and up = True
                   and coll = "example_collection"]
  note other = inst [THEN conjunct2, THEN conjunct2, THEN conjunct2, THEN conjunct2,
                     THEN conjunct1, rule_format, OF 3]
  have 4: "example_collection ''t0''
             = Some (example_task\<lparr>task_id := ''t0'', task_status := FAILED\<rparr>)"
    by (simp add: example_collection_def)
  show ?thesis
    using inst other 4 by metis
qed

section \<open>Content adaptation\<close>

lemma rfind_split:
  assumes "c \<notin> set b"
  shows "rfind (a @ c # b) c = int (length a)"
proof -
  have "takeWhile (\<lambda>x. x \<noteq> c) (rev b @ c # rev a)
          = rev b @ takeWhile (\<lambda>x. x \<noteq> c) (c # rev a)"
    by (rule takeWhile_append2) (use assms in auto)
  then have "takeWhile (\<lambda>x. x \<noteq> c) (rev (a @ c # b)) = rev b"
    by simp
  then show ?thesis by (simp add: rfind_def)
qed

lemma truncate_text_fits: "int (length s) \<le> m \<Longrightarrow> truncate_text s m = s"
  by (simp add: truncate_text_def)

lemma last_occurrence_bound:
  assumes "t = a @ c # b" "c \<notin> set b" "i < length t" "t ! i = c"
  shows "i \<le> length a"
proof (rule ccontr)
  assume "\<not> i \<le> length a"
  then have gt: "length a < i" by simp
  then have "t ! i = b ! (i - length a - 1)"
    using assms(1) by (simp add: nth_append nth_Cons')
  moreover have "i - length a - 1 < length b"
    using gt assms(1,3) by simp
  ultimately have "t ! i \<in> set b" by simp
  then show False using assms(2,4) by simp
qed

text \<open>
  A text over a budget that is not negative: the result is a prefix of the text followed
  by the ellipsis. Where the first budget's worth of characters holds a space after
  position 0, the prefix ends right before the last such space; otherwise the prefix is
  the budget's worth of characters.
\<close>

lemma truncate_text_cut:
  assumes "0 \<le> m" "m < int (length s)"
  shows "\<exists>k. truncate_text s m = take k s @ ''...'' \<and> k \<le> nat m \<and>
           ((\<forall>i. 0 < i \<and> i < nat m \<longrightarrow> s ! i \<noteq> CHR '' '') \<longrightarrow> k = nat m) \<and>
           (\<forall>i. 0 < i \<and> i < nat m \<and> s ! i = CHR '' '' \<longrightarrow>
                0 < k \<and> k < nat m \<and> s ! k = CHR '' '' \<and> i \<le> k)"
proof -
  let ?t = "take (nat m) s"
  have len: "length ?t = nat m" using assms by simp
  have nth_t: "?t ! i = s ! i" if "i < nat m" for i using that by simp
  show ?thesis
  proof (cases "rfind ?t CHR '' '' > 0")
    case True
    then have mem: "CHR '' '' \<in> set ?t"
      by (auto simp: rfind_def split: if_splits)
    then obtain a b where ab: "?t = a @ CHR '' '' # b" "CHR '' '' \<notin> set b"
      by (meson split_list_last)
    have rf: "rfind ?t CHR '' '' = int (length a)"
      using ab rfind_split by metis
    have pos: "0 < length a" using True rf by simp
    have la: "length a < nat m"
    proof -
      have "length ?t = length a + Suc (length b)" using ab(1) by (metis length_append length_Cons)
      then show ?thesis using len by simp
    qed
    have ta: "take (length a) ?t = a" using ab(1) by simp
    have tt: "truncate_text s m = take (length a) s @ ''...''"
    proof -
      have "take (length a) s = a" using ta la by (simp add: min_def)
      then show ?thesis
        using assms True rf ta la by (simp add: truncate_text_def slice_to_def Let_def)
    qed
    have at: "s ! length a = CHR '' ''"
    proof -
      have "?t ! length a = CHR '' ''" using ab(1) by (metis nth_append_length)
      then show ?thesis using nth_t [OF la] by simp
    qed
    have last: "i \<le> length a" if "i < nat m" "s ! i = CHR '' ''" for i
    proof -
      have "i < length ?t" using that(1) len by simp
      moreover have "?t ! i = CHR '' ''" using nth_t [OF that(1)] that(2) by simp
      ultimately show ?thesis using last_occurrence_bound [OF ab] by blast
    qed
    show ?thesis
    proof (intro exI [of _ "length a"] conjI impI allI)
      show "truncate_text s m = take (length a) s @ ''...''" by (rule tt)
      show "length a \<le> nat m" using la by simp
      show "length a = nat m" if "\<forall>i. 0 < i \<and> i < nat m \<longrightarrow> s ! i \<noteq> CHR '' ''"
        using that pos la at by blast
      show "0 < length a" if "0 < i \<and> i < nat m \<and> s ! i = CHR '' ''" for i by (rule pos)
      show "length a < nat m" if "0 < i \<and> i < nat m \<and> s ! i = CHR '' ''" for i by (rule la)
      show "s ! length a = CHR '' ''" if "0 < i \<and> i < nat m \<and> s ! i = CHR '' ''" for i
        by (rule at)
      show "i \<le> length a" if "0 < i \<and> i < nat m \<and> s ! i = CHR '' ''" for i
        using that last by blast
    qed
  next
    case False
    have tt: "truncate_text s m = take (nat m) s @ ''...''"
      using assms False by (simp add: truncate_text_def slice_to_def Let_def)
    have none: False if i: "0 < i" "i < nat m" "s ! i = CHR '' ''" for i
    proof -
      have il: "i < length ?t" using i(2) len by simp
      have ti: "?t ! i = CHR '' ''" using nth_t [OF i(2)] i(3) by simp
      then have "CHR '' '' \<in> set ?t" using il by (metis nth_mem)
      then obtain a b where ab: "?t = a @ CHR '' '' # b" "CHR '' '' \<notin> set b"
        by (meson split_list_last)
      have "rfind ?t CHR '' '' = int (length a)"
        using ab rfind_split by metis
      moreover have "i \<le> length a" using last_occurrence_bound [OF ab il ti] .
      ultimately show False using False i(1) by simp
    qed
    show ?thesis
    proof (intro exI [of _ "nat m"] conjI impI allI)
      show "truncate_text s m = take (nat m) s @ ''...''" by (rule tt)
      show "0 < nat m" if "0 < i \<and> i < nat m \<and> s ! i = CHR '' ''" for i
        using that none by blast
      show "nat m < nat m" if "0 < i \<and> i < nat m \<and> s ! i = CHR '' ''" for i
        using that none by blast
      show "s ! nat m = CHR '' ''" if "0 < i \<and> i < nat m \<and> s ! i = CHR '' ''" for i
        using that none by blast
      show "i \<le> nat m" if "0 < i \<and> i < nat m \<and> s ! i = CHR '' ''" for i
        using that by simp
    qed simp_all
  qed
qed

lemma truncate_text_nonempty: "s \<noteq> [] \<Longrightarrow> truncate_text s m \<noteq> []"
  by (auto simp: truncate_text_def Let_def)

lemma bind_Value:
  "bind m f = Value y \<Longrightarrow> \<exists>x. m = Value x \<and> f x = Value y"
  by (cases m) simp_all

lemma map_outcome_Value:
  "map_outcome f m = Value y \<Longrightarrow> \<exists>x. m = Value x \<and> y = f x"
  by (cases m) auto

text \<open>The text of an adapted content is what \<open>adapted_text\<close> put together.\<close>

lemma adapt_content_text:
  assumes "adapt_content_for_platform raw img p rules = Value c"
      and "format_hashtags (extract_hashtags raw) (hashtag_format rules) = Value fs"
  shows "adapted_text raw (extract_hashtags raw) fs (max_text_length rules)
           = Value (content_text c)"
proof -
  from assms(1) have asc: "list_all is_ascii raw"
    by (simp add: adapt_content_for_platform_def split: if_splits)
  with assms have
    "bind (adapted_text raw (extract_hashtags raw) fs (max_text_length rules)) (\<lambda>txt.
       map_outcome
         (\<lambda>md. \<lparr>platform = p, content_text = txt, image_reference = img,
                 hashtags = extract_hashtags raw, psc_metadata = md\<rparr>)
         (platform_metadata p img
            (case image_requirements rules of None \<Rightarrow> [] | Some r \<Rightarrow> r))) = Value c"
    by (simp add: adapt_content_for_platform_def Let_def)
  then obtain tx where t: "adapted_text raw (extract_hashtags raw) fs (max_text_length rules)
                              = Value tx"
    and m: "map_outcome
         (\<lambda>md. \<lparr>platform = p, content_text = tx, image_reference = img,
                 hashtags = extract_hashtags raw, psc_metadata = md\<rparr>)
         (platform_metadata p img
            (case image_requirements rules of None \<Rightarrow> [] | Some r \<Rightarrow> r)) = Value c"
    by (auto dest!: bind_Value)
  from m have "content_text c = tx" by (auto dest!: map_outcome_Value)
  then show ?thesis using t by simp
qed

text \<open>The budget and the text when there are hashtags, the arithmetic written out.\<close>

lemma adapted_text_with_tags:
  assumes "tags \<noteq> []" "adapted_text raw tags fs M = Value txt"
  shows "txt =
     (let h = join_space fs;
          B = (if 0 \<le> M - int (length h) - 1 then M - int (length h) - 1
               else if 0 \<le> M then M div 2 else - ((- M) div 2));
          t = truncate_text (clean_text raw) B
      in if t \<noteq> [] \<and> h \<noteq> [] then t @ '' '' @ h else if t \<noteq> [] then t else h)"
  using assms
  by (auto simp: adapted_text_def max_content_length_def int_half_def Let_def
           split: if_splits dest!: map_outcome_Value)

text \<open>
  Claim C7, as amended. With hashtags the body's budget is the maximum length less the
  hashtag text and one space, and half the maximum length, rounded towards zero, when
  that is negative; without hashtags the budget is the maximum length. A cleaned body
  within its budget is kept. A body over a budget that is not negative is cut to a
  prefix, and the ellipsis is appended to the prefix: the prefix ends right before the
  last space among the first budget's worth of characters when there is a space after
  position 0 among them, and is the budget's worth of characters otherwise. The
  formatted hashtags follow the body in full after one space, so the returned text ends
  with the whole hashtag text. When the hashtags leave no budget and the body is not
  empty, the returned text is longer than the maximum length.
\<close>

theorem truncation_within_budget:
  "(int (length s) \<le> m \<longrightarrow> truncate_text s m = s) \<and>
   (0 \<le> m \<and> m < int (length s) \<longrightarrow>
      (\<exists>k. truncate_text s m = take k s @ ''...'' \<and> k \<le> nat m \<and>
           ((\<forall>i. 0 < i \<and> i < nat m \<longrightarrow> s ! i \<noteq> CHR '' '') \<longrightarrow> k = nat m) \<and>
           (\<forall>i. 0 < i \<and> i < nat m \<and> s ! i = CHR '' '' \<longrightarrow>
                0 < k \<and> k < nat m \<and> s ! k = CHR '' '' \<and> i \<le> k))) \<and>
   (adapt_content_for_platform raw img p rules = Value c \<and>
    format_hashtags (extract_hashtags raw) (hashtag_format rules) = Value fs \<longrightarrow>
      (let M = max_text_length rules;
           h = join_space fs;
           body = clean_text raw;
           B = (if 0 \<le> M - int (length h) - 1 then M - int (length h) - 1
                else if 0 \<le> M then M div 2 else - ((- M) div 2));
           t = truncate_text body B
       in (extract_hashtags raw = [] \<longrightarrow> content_text c = truncate_text body M) \<and>
          (extract_hashtags raw \<noteq> [] \<longrightarrow>
             content_text c =
               (if t \<noteq> [] \<and> h \<noteq> [] then t @ '' '' @ h else if t \<noteq> [] then t else h) \<and>
             (\<exists>pre. content_text c = pre @ h) \<and>
             (M - int (length h) - 1 < 0 \<and> 0 \<le> M \<and> body \<noteq> [] \<longrightarrow>
                M < int (length (content_text c))))))"
proof (intro conjI impI)
  assume "int (length s) \<le> m"
  then show "truncate_text s m = s" by (rule truncate_text_fits)
next
  assume "0 \<le> m \<and> m < int (length s)"
  then show "\<exists>k. truncate_text s m = take k s @ ''...'' \<and> k \<le> nat m \<and>
           ((\<forall>i. 0 < i \<and> i < nat m \<longrightarrow> s ! i \<noteq> CHR '' '') \<longrightarrow> k = nat m) \<and>
           (\<forall>i. 0 < i \<and> i < nat m \<and> s ! i = CHR '' '' \<longrightarrow>
                0 < k \<and> k < nat m \<and> s ! k = CHR '' '' \<and> i \<le> k)"
    using truncate_text_cut by blast
next
  assume a: "adapt_content_for_platform raw img p rules = Value c \<and>
             format_hashtags (extract_hashtags raw) (hashtag_format rules) = Value fs"
  define M where "M = max_text_length rules"
  define h where "h = join_space fs"
  define body where "body = clean_text raw"
  define B where "B = (if 0 \<le> M - int (length h) - 1 then M - int (length h) - 1
                       else if 0 \<le> M then M div 2 else - ((- M) div 2))"
  define t where "t = truncate_text body B"
  have at: "adapted_text raw (extract_hashtags raw) fs M = Value (content_text c)"
    using a adapt_content_text unfolding M_def by blast
  have none: "content_text c = truncate_text body M" if "extract_hashtags raw = []"
    using at that by (simp add: adapted_text_def body_def)
  have some: "content_text c =
                (if t \<noteq> [] \<and> h \<noteq> [] then t @ '' '' @ h else if t \<noteq> [] then t else h)"
    if "extract_hashtags raw \<noteq> []"
    using adapted_text_with_tags [OF that at]
    unfolding Let_def t_def B_def h_def body_def .
  have suffix: "\<exists>pre. content_text c = pre @ h" if "extract_hashtags raw \<noteq> []"
  proof (cases "t \<noteq> [] \<and> h \<noteq> []")
    case True
    then have "content_text c = (t @ '' '') @ h" using some [OF that] by simp
    then show ?thesis by blast
  next
    case False
    show ?thesis
    proof (cases "t \<noteq> []")
      case True
      then have "h = []" using False by simp
      then have "content_text c = t @ h" using some [OF that] True by simp
      then show ?thesis by blast
    next
      case False
      then have "content_text c = [] @ h" using some [OF that] by simp
      then show ?thesis by blast
    qed
  qed
  have over: "M < int (length (content_text c))"
    if tg: "extract_hashtags raw \<noteq> []" and f: "M - int (length h) - 1 < 0 \<and> 0 \<le> M \<and> body \<noteq> []"
  proof -
    have tne: "t \<noteq> []" using f by (simp add: t_def truncate_text_nonempty)
    show ?thesis
    proof (cases "h = []")
      case True
      then have "content_text c = t" using some [OF tg] tne by simp
      moreover have "M < 1" using f True by simp
      moreover have "1 \<le> int (length t)" using tne by (cases t) simp_all
      ultimately show ?thesis by simp
    next
      case False
      then have "content_text c = t @ '' '' @ h" using some [OF tg] tne by simp
      then have "int (length (content_text c)) = int (length t) + 1 + int (length h)" by simp
      then show ?thesis using f by simp
    qed
  qed
  show "let M = max_text_length rules;
           h = join_space fs;
           body = clean_text raw;
           B = (if 0 \<le> M - int (length h) - 1 then M - int (length h) - 1
                else if 0 \<le> M then M div 2 else - ((- M) div 2));
           t = truncate_text body B
       in (extract_hashtags raw = [] \<longrightarrow> content_text c = truncate_text body M) \<and>
          (extract_hashtags raw \<noteq> [] \<longrightarrow>
             content_text c =
               (if t \<noteq> [] \<and> h \<noteq> [] then t @ '' '' @ h else if t \<noteq> [] then t else h) \<and>
             (\<exists>pre. content_text c = pre @ h) \<and>
             (M - int (length h) - 1 < 0 \<and> 0 \<le> M \<and> body \<noteq> [] \<longrightarrow>
                M < int (length (content_text c))))"
    unfolding Let_def
    using none some suffix over
    unfolding M_def h_def body_def B_def t_def
    by blast
qed

theorem truncation_within_budget_witness:
  "truncate_text ''hello'' 12 = ''hello'' \<and>
   (\<exists>k. truncate_text ''hello world foo'' 12 = take k ''hello world foo'' @ ''...'' \<and>
        k \<le> nat 12 \<and> 0 < k \<and> k < nat 12 \<and> ''hello world foo'' ! k = CHR '' '' \<and> 11 \<le> k) \<and>
   (\<exists>k. truncate_text ''abcdefghij'' 5 = take k ''abcdefghij'' @ ''...'' \<and> k = nat 5) \<and>
   content_text (example_content ''hello...'' []) = truncate_text (clean_text ''hello there'') 5 \<and>
   content_text (example_content ''one two three... #tag'' [''tag''])
     = truncate_text (clean_text ''one two three four #tag'') 15 @ '' '' @ ''#tag'' \<and>
   content_text (example_content ''Hello #world #test'' [''world'', ''test''])
     = truncate_text (clean_text ''Hello #world #test'') 5 @ '' '' @ ''#world #test'' \<and>
   (\<exists>pre. content_text (example_content ''Hello #world #test'' [''world'', ''test''])
            = pre @ ''#world #test'') \<and>
   10 < int (length (content_text (example_content ''Hello #world #test'' [''world'', ''test''])))"
proof -
  have a: "truncate_text ''hello'' 12 = ''hello''"
  proof -
    have h: "int (length ''hello'') \<le> 12" by simp
    show ?thesis
      by (rule truncation_within_budget
                 [where s = "''hello''" and m = 12, THEN conjunct1, THEN mp, OF h])
  qed
  have b: "\<exists>k. truncate_text ''hello world foo'' 12 = take k ''hello world foo'' @ ''...'' \<and>
        k \<le> nat 12 \<and> 0 < k \<and> k < nat 12 \<and> ''hello world foo'' ! k = CHR '' '' \<and> 11 \<le> k"
  proof -
    have h: "(0::int) \<le> 12 \<and> 12 < int (length ''hello world foo'')" by simp
    have i: "(0::nat) < 11 \<and> 11 < nat 12 \<and> ''hello world foo'' ! 11 = CHR '' ''" by simp
    from truncation_within_budget
           [where s = "''hello world foo''" and m = 12, THEN conjunct2, THEN conjunct1, THEN mp,
            OF h]
    obtain k where k: "truncate_text ''hello world foo'' 12 = take k ''hello world foo'' @ ''...''"
      "k \<le> nat 12"
      "\<forall>i. 0 < i \<and> i < nat 12 \<and> ''hello world foo'' ! i = CHR '' '' \<longrightarrow>
           0 < k \<and> k < nat 12 \<and> ''hello world foo'' ! k = CHR '' '' \<and> i \<le> k"
      by blast
    from k(3) [rule_format, OF i]
    have "0 < k \<and> k < nat 12 \<and> ''hello world foo'' ! k = CHR '' '' \<and> 11 \<le> k" .
    then show ?thesis using k(1,2) by blast
  qed
  have c: "\<exists>k. truncate_text ''abcdefghij'' 5 = take k ''abcdefghij'' @ ''...'' \<and> k = nat 5"
  proof -
    have h: "(0::int) \<le> 5 \<and> 5 < int (length ''abcdefghij'')" by simp
    have n: "\<forall>i. 0 < i \<and> i < nat 5 \<longrightarrow> ''abcdefghij'' ! i \<noteq> CHR '' ''"
    proof (intro allI impI)
      fix i :: nat
      assume "0 < i \<and> i < nat 5"
      then have "i = 1 \<or> i = 2 \<or> i = 3 \<or> i = 4" by auto
      then show "''abcdefghij'' ! i \<noteq> CHR '' ''" by auto
    qed
    from truncation_within_budget
           [where s = "''abcdefghij''" and m = 5, THEN conjunct2, THEN conjunct1, THEN mp, OF h]
    obtain k where k: "truncate_text ''abcdefghij'' 5 = take k ''abcdefghij'' @ ''...''"
      "(\<forall>i. 0 < i \<and> i < nat 5 \<longrightarrow> ''abcdefghij'' ! i \<noteq> CHR '' '') \<longrightarrow> k = nat 5"
      by blast
    from k(2) n have "k = nat 5" by (rule mp)
    then show ?thesis using k(1) by blast
  qed
  have d: "content_text (example_content ''hello...'' [])
             = truncate_text (clean_text ''hello there'') 5"
  proof -
    have e: "extract_hashtags ''hello there'' = []" by code_simp
    have v: "adapt_content_for_platform ''hello there'' None FACEBOOK (example_rules 5)
               = Value (example_content ''hello...'' [])"
      by code_simp
    have f: "format_hashtags (extract_hashtags ''hello there'') (hashtag_format (example_rules 5))
               = Value []"
      unfolding e by (simp add: example_rules_def)
    have m: "max_text_length (example_rules 5) = 5" by (simp add: example_rules_def)
    show ?thesis
      by (rule truncation_within_budget
                 [where raw = "''hello there''" and img = None and p = FACEBOOK
                    and rules = "example_rules 5" and c = "example_content ''hello...'' []"
                    and fs = "[]", THEN conjunct2, THEN conjunct2, THEN mp, OF conjI [OF v f],
                  unfolded Let_def m, THEN conjunct1, THEN mp, OF e])
  qed
  have g: "content_text (example_content ''one two three... #tag'' [''tag''])
             = truncate_text (clean_text ''one two three four #tag'') 15 @ '' '' @ ''#tag''"
  proof -
    have e: "extract_hashtags ''one two three four #tag'' = [''tag'']" by code_simp
    have v: "adapt_content_for_platform ''one two three four #tag'' None FACEBOOK (example_rules 20)
               = Value (example_content ''one two three... #tag'' [''tag''])"
      by code_simp
    have f: "format_hashtags (extract_hashtags ''one two three four #tag'')
               (hashtag_format (example_rules 20)) = Value [''#tag'']"
      unfolding e by (simp add: example_rules_def)
    have m: "max_text_length (example_rules 20) = 20" by (simp add: example_rules_def)
    have ne: "extract_hashtags ''one two three four #tag'' \<noteq> []" unfolding e by simp
    have t: "truncate_text (clean_text ''one two three four #tag'') 15 \<noteq> []" by code_simp
    have j: "join_space [''#tag''] = ''#tag''" by simp
    have B: "(if (0::int) \<le> 20 - int (length ''#tag'') - 1
              then 20 - int (length ''#tag'') - 1
              else if (0::int) \<le> 20 then 20 div 2 else - ((- 20) div 2)) = 15"
      by simp
    note inst = truncation_within_budget
           [where raw = "''one two three four #tag''" and img = None and p = FACEBOOK
              and rules = "example_rules 20"
              and c = "example_content ''one two three... #tag'' [''tag'']"
              and fs = "[''#tag'']", THEN conjunct2, THEN conjunct2, THEN mp, OF conjI [OF v f],
            unfolded Let_def m j, THEN conjunct2, THEN mp, OF ne, THEN conjunct1]
    show ?thesis using inst t unfolding B by simp
  qed
  have e2: "extract_hashtags ''Hello #world #test'' = [''world'', ''test'']" by code_simp
  have v2: "adapt_content_for_platform ''Hello #world #test'' None FACEBOOK (example_rules 10)
               = Value (example_content ''Hello #world #test'' [''world'', ''test''])"
    by code_simp
  have f2: "format_hashtags (extract_hashtags ''Hello #world #test'')
               (hashtag_format (example_rules 10)) = Value [''#world'', ''#test'']"
    unfolding e2 by (simp add: example_rules_def)
  have m2: "max_text_length (example_rules 10) = 10" by (simp add: example_rules_def)
  have ne2: "extract_hashtags ''Hello #world #test'' \<noteq> []" unfolding e2 by simp
  have j2: "join_space [''#world'', ''#test''] = ''#world #test''" by simp
  have B2: "(if (0::int) \<le> 10 - int (length ''#world #test'') - 1
              then 10 - int (length ''#world #test'') - 1
              else if (0::int) \<le> 10 then 10 div 2 else - ((- 10) div 2)) = 5"
    by simp
  have t2: "truncate_text (clean_text ''Hello #world #test'') 5 \<noteq> []" by code_simp
  have fb: "(10::int) - int (length ''#world #test'') - 1 < 0 \<and> (0::int) \<le> 10
              \<and> clean_text ''Hello #world #test'' \<noteq> []"
    by code_simp
  note inst2 = truncation_within_budget
           [where raw = "''Hello #world #test''" and img = None and p = FACEBOOK
              and rules = "example_rules 10"
              and c = "example_content ''Hello #world #test'' [''world'', ''test'']"
              and fs = "[''#world'', ''#test'']", THEN conjunct2, THEN conjunct2, THEN mp,
            OF conjI [OF v2 f2], unfolded Let_def m2 j2, THEN conjunct2, THEN mp, OF ne2]
  have h1: "content_text (example_content ''Hello #world #test'' [''world'', ''test''])
     = truncate_text (clean_text ''Hello #world #test'') 5 @ '' '' @ ''#world #test''"
    using inst2 [THEN conjunct1] t2 unfolding B2 by simp
  have h2: "\<exists>pre. content_text (example_content ''Hello #world #test'' [''world'', ''test''])
            = pre @ ''#world #test''"
    by (rule inst2 [THEN conjunct2, THEN conjunct1])
  have h3: "10 < int (length (content_text (example_content ''Hello #world #test'' [''world'', ''test''])))"
    by (rule inst2 [THEN conjunct2, THEN conjunct2, THEN mp, OF fb])
  show ?thesis
    by (intro conjI) (rule a b c d g h1 h2 h3)+
qed

text \<open>
  Claim C7 as stated fails on the length: for \<open>"Hello #world #test"\<close> and a maximum
  length of 10 the body and hashtags exceed the maximum, the hashtags leave no budget,
  the body gets half the maximum, fits it and is not cut, and the returned text has 18
  characters.
\<close>

theorem adapted_text_exceeds_max_counterexample:
  "map_outcome content_text
     (adapt_content_for_platform ''Hello #world #test'' None TWITTER
        \<lparr>rules_platform = TWITTER, max_text_length = 10, hashtag_format = ''#{}'',
         image_requirements = None\<rparr>)
     = Value ''Hello #world #test'' \<and>
   \<not> int (length ''Hello #world #test'') \<le> 10"
  by code_simp

text \<open>
  Apart from the fallback, the ellipsis is not counted against the budget.
  \<open>truncate_text\<close>, documented as truncating to the maximum length, returns eight
  characters for ten letters and a maximum of five; and with one hashtag and a maximum
  of 20, where the budget of 15 is not negative, the adapted text has 21 characters.
  What the source documents and what it does differ here; the statement above fixes the
  cut and the budget and sets no bound on the length for this case.
\<close>

lemma truncate_text_ellipsis_overshoot:
  "truncate_text ''abcdefghij'' 5 = ''abcde...''"
  by code_simp

lemma adapted_text_ellipsis_overshoot:
  "map_outcome (\<lambda>c. (content_text c, length (content_text c)))
     (adapt_content_for_platform ''one two three four #tag'' None FACEBOOK (example_rules 20))
     = Value (''one two three... #tag'', 21)"
  by code_simp

text \<open>
  Claim C8. For \<open>"Hello #world #test"\<close> under a maximum length of 280 and the hashtag
  template \<open>#{}\<close> the body is \<open>Hello\<close>, the formatted hashtags are \<open>#world\<close> and
  \<open>#test\<close>, and the returned text is \<open>Hello #world #test\<close>.
\<close>

theorem adapt_hello_world_test:
  "clean_text ''Hello #world #test'' = ''Hello'' \<and>
   format_hashtags (extract_hashtags ''Hello #world #test'') ''#{}''
     = Value [''#world'', ''#test''] \<and>
   adapt_content_for_platform ''Hello #world #test'' None TWITTER
     \<lparr>rules_platform = TWITTER, max_text_length = 280, hashtag_format = ''#{}'',
      image_requirements = Some [(''max_images'', JNum 4)]\<rparr>
     = Value \<lparr>platform = TWITTER, content_text = ''Hello #world #test'',
              image_reference = None, hashtags = [''world'', ''test''],
              psc_metadata = []\<rparr>"
  by code_simp

section \<open>Deferred publication jobs\<close>

lemma add_job_ids: "set (map job_id (add_job js j)) = insert (job_id j) (set (map job_id js))"
  by (auto simp: add_job_def)

lemma replace_job_ids:
  "map job_id (map (\<lambda>k. if job_id k = job_id j then j else k) js) = map job_id js"
  by (induction js) auto

lemma add_job_distinct:
  "distinct (map job_id js) \<Longrightarrow> distinct (map job_id (add_job js j))"
  by (simp add: add_job_def replace_job_ids del: map_map)

lemma add_job_length:
  "job_id j \<in> set (map job_id js) \<Longrightarrow> length (add_job js j) = length js"
  by (simp add: add_job_def)

lemma filter_absent:
  "i \<notin> set (map job_id js) \<Longrightarrow> filter (\<lambda>k. job_id k = i) js = []"
  by (induction js) auto

lemma filter_replaced:
  "distinct (map job_id js) \<Longrightarrow> job_id j \<in> set (map job_id js) \<Longrightarrow>
   filter (\<lambda>k. job_id k = job_id j) (map (\<lambda>k. if job_id k = job_id j then j else k) js) = [j]"
proof (induction js)
  case Nil
  then show ?case by simp
next
  case (Cons k ks)
  show ?case
  proof (cases "job_id k = job_id j")
    case True
    then have "job_id j \<notin> set (map job_id ks)" using Cons.prems(1) by auto
    then have "job_id j \<notin> set (map job_id (map (\<lambda>k. if job_id k = job_id j then j else k) ks))"
      by (metis replace_job_ids)
    then have "filter (\<lambda>k. job_id k = job_id j) (map (\<lambda>k. if job_id k = job_id j then j else k) ks) = []"
      by (rule filter_absent)
    then show ?thesis using True by simp
  next
    case False
    then show ?thesis using Cons by auto
  qed
qed

lemma add_job_filter:
  "distinct (map job_id js) \<Longrightarrow> filter (\<lambda>k. job_id k = job_id j) (add_job js j) = [j]"
  by (simp add: add_job_def filter_replaced filter_absent del: set_map)

text \<open>
  Claim C3. In a job store whose ids are distinct, registering the publication of a post
  and then of a post with the same id leaves exactly one job under the post's job id,
  due at the second registration's schedule time and carrying the post id; the second
  registration adds no job.
\<close>

theorem schedule_twice_one_job:
  "distinct (map job_id (jobs a)) \<Longrightarrow> post_id p2 = post_id p1 \<Longrightarrow>
   (let a1 = schedule_post_publication a p1;
        a2 = schedule_post_publication a1 p2;
        jid = ''publish_post_'' @ post_id p1
    in filter (\<lambda>j. job_id j = jid) (jobs a2)
         = [\<lparr>job_id = jid, run_date = schedule_time p2, args = [post_id p1]\<rparr>] \<and>
       distinct (map job_id (jobs a2)) \<and>
       length (jobs a2) = length (jobs a1))"
proof -
  assume d: "distinct (map job_id (jobs a))" and same: "post_id p2 = post_id p1"
  let ?jid = "''publish_post_'' @ post_id p1"
  let ?j1 = "\<lparr>job_id = ?jid, run_date = schedule_time p1, args = [post_id p1]\<rparr>"
  let ?j2 = "\<lparr>job_id = ?jid, run_date = schedule_time p2, args = [post_id p1]\<rparr>"
  let ?js1 = "add_job (jobs a) ?j1"
  have j1: "jobs (schedule_post_publication a p1) = ?js1"
    by (simp add: schedule_post_publication_def)
  have j2: "jobs (schedule_post_publication (schedule_post_publication a p1) p2) = add_job ?js1 ?j2"
    by (simp add: schedule_post_publication_def same)
  have d1: "distinct (map job_id ?js1)" using d by (rule add_job_distinct)
  have d2: "distinct (map job_id (add_job ?js1 ?j2))" using d1 by (rule add_job_distinct)
  have f: "filter (\<lambda>k. job_id k = job_id ?j2) (add_job ?js1 ?j2) = [?j2]"
    using d1 by (rule add_job_filter)
  have "job_id ?j2 \<in> set (map job_id ?js1)"
    unfolding add_job_ids by simp
  then have l: "length (add_job ?js1 ?j2) = length ?js1" by (rule add_job_length)
  show ?thesis
    unfolding Let_def j1 j2 using d2 f l by simp
qed

theorem schedule_twice_one_job_witness:
  "(let a1 = schedule_post_publication example_scheduler example_post;
        a2 = schedule_post_publication a1 (example_post\<lparr>schedule_time := 250\<rparr>);
        jid = ''publish_post_'' @ post_id example_post
    in filter (\<lambda>j. job_id j = jid) (jobs a2)
         = [\<lparr>job_id = jid, run_date = schedule_time (example_post\<lparr>schedule_time := 250\<rparr>),
             args = [post_id example_post]\<rparr>] \<and>
       distinct (map job_id (jobs a2)) \<and>
       length (jobs a2) = length (jobs a1))"
proof -
  have 1: "distinct (map job_id (jobs example_scheduler))"
    by (simp add: example_scheduler_def)
  have 2: "post_id (example_post\<lparr>schedule_time := 250\<rparr>) = post_id example_post"
    by simp
  show ?thesis
    by (rule schedule_twice_one_job [OF 1 2])
qed

section \<open>Draining the publish queue\<close>

lemma queue_of_unchanged:
  "publish_queue a' = publish_queue a \<Longrightarrow> queue_of a' = queue_of a"
  by (simp add: queue_of_def)

text \<open>
  Whatever the handler does to the rest of the state: every entry of the copy is called
  once, in order, and each call finds its own entry still in the queue.
\<close>

lemma queue_of_set: "queue_of (a\<lparr>publish_queue := Some x\<rparr>) = x"
  by (simp add: queue_of_def)

lemma drain_items_calls:
  assumes keep: "\<And>a pid. publish_queue (snd (h a pid)) = publish_queue a"
  shows "mset xs \<subseteq># mset (queue_of a) \<Longrightarrow> list_all (\<lambda>(pid, q). pid \<in> set q) calls \<Longrightarrow>
         map fst (snd (drain_items h xs (a, calls))) = map fst calls @ xs \<and>
         list_all (\<lambda>(pid, q). pid \<in> set q) (snd (drain_items h xs (a, calls)))"
proof (induction xs arbitrary: a calls)
  case Nil
  then show ?case by simp
next
  case (Cons pid rest)
  obtain r a' where h: "h a pid = (r, a')" by (cases "h a pid")
  have "publish_queue a' = publish_queue a"
    using keep [of a pid] h by simp
  then have q: "queue_of a' = queue_of a"
    by (rule queue_of_unchanged)
  have sub: "add_mset pid (mset rest) \<subseteq># mset (queue_of a)"
    using Cons.prems(1) by simp
  have mem: "pid \<in> set (queue_of a)"
    using sub by (simp add: insert_subset_eq_iff)
  have calls': "list_all (\<lambda>(pid, q). pid \<in> set q) (calls @ [(pid, queue_of a)])"
    using Cons.prems(2) mem by simp
  show ?case
  proof (cases r)
    case None
    let ?a = "a'\<lparr>publish_queue := Some (remove1 pid (queue_of a'))\<rparr>"
    have "queue_of ?a = remove1 pid (queue_of a)"
      by (simp add: queue_of_set q)
    moreover have "mset rest \<subseteq># mset (remove1 pid (queue_of a))"
      using sub by (simp add: insert_subset_eq_iff)
    ultimately have "mset rest \<subseteq># mset (queue_of ?a)" by simp
    from Cons.IH [OF this calls'] show ?thesis
      using h None by simp
  next
    case (Some e)
    have "mset rest \<subseteq># add_mset pid (mset rest)" by simp
    then have "mset rest \<subseteq># mset (queue_of a)"
      using sub by (rule subset_mset.order_trans)
    then have "mset rest \<subseteq># mset (queue_of a')" by (simp add: q)
    from Cons.IH [OF this calls'] show ?thesis
      using h Some by simp
  qed
qed

text \<open>With a handler that never raises, the pass removes what it went through.\<close>

lemma drain_items_empties:
  assumes keep: "\<And>a pid. publish_queue (snd (h a pid)) = publish_queue a"
      and ok: "\<And>a pid. fst (h a pid) = None"
  shows "queue_of a = xs @ r \<Longrightarrow> xs \<noteq> [] \<Longrightarrow>
         publish_queue (fst (drain_items h xs (a, calls))) = Some r"
proof (induction xs arbitrary: a calls)
  case Nil
  then show ?case by simp
next
  case (Cons pid rest)
  obtain a' where h: "h a pid = (None, a')"
    using ok [of a pid] by (cases "h a pid") auto
  have "publish_queue a' = publish_queue a"
    using keep [of a pid] h by simp
  then have q: "queue_of a' = queue_of a"
    by (rule queue_of_unchanged)
  let ?a = "a'\<lparr>publish_queue := Some (remove1 pid (queue_of a'))\<rparr>"
  have qa: "queue_of ?a = rest @ r"
    using Cons.prems(1) by (simp add: queue_of_set q)
  show ?case
  proof (cases "rest = []")
    case True
    then show ?thesis using h qa by (simp add: q queue_of_set)
  next
    case False
    from Cons.IH [OF qa False] show ?thesis using h by simp
  qed
qed

text \<open>With a handler that always raises, the pass leaves the queue as it was.\<close>

lemma drain_items_keeps:
  assumes keep: "\<And>a pid. publish_queue (snd (h a pid)) = publish_queue a"
      and bad: "\<And>a pid. fst (h a pid) \<noteq> None"
  shows "publish_queue (fst (drain_items h xs (a, calls))) = publish_queue a"
proof (induction xs arbitrary: a calls)
  case Nil
  then show ?case by simp
next
  case (Cons pid rest)
  obtain ex a' where h: "h a pid = (Some ex, a')"
    using bad [of a pid] by (cases "h a pid") auto
  have "publish_queue a' = publish_queue a"
    using keep [of a pid] h by simp
  then show ?case using Cons.IH [of a'] h by simp
qed

text \<open>
  Claim C2, as amended. For a handler that leaves the queue alone, a drain pass over the
  queue \<open>q\<close> calls the handler once for every entry, in the order of the queue, while the
  entry is still in the queue: the entry is removed after the handler returned. When
  the handler never raises, the queue is empty after the pass and the next pass calls
  nothing, so over both passes every entry is handled once. When the handler always
  raises, every entry stays in the queue.
\<close>

theorem drain_pass_calls_once:
  assumes "\<forall>a pid. publish_queue (snd (h a pid)) = publish_queue a"
      and "publish_queue a = Some q"
  shows "map fst (snd (process_publish_queue h a)) = q \<and>
         list_all (\<lambda>(pid, qq). pid \<in> set qq) (snd (process_publish_queue h a)) \<and>
         ((\<forall>a pid. fst (h a pid) = None) \<longrightarrow>
            publish_queue (fst (process_publish_queue h a)) = Some [] \<and>
            snd (process_publish_queue h (fst (process_publish_queue h a))) = []) \<and>
         ((\<forall>a pid. fst (h a pid) \<noteq> None) \<longrightarrow>
            publish_queue (fst (process_publish_queue h a)) = Some q)"
proof (cases "q = []")
  case True
  then show ?thesis using assms(2) by (simp add: process_publish_queue_def)
next
  case False
  have p: "process_publish_queue h a = drain_items h q (a, [])"
    using assms(2) False by (simp add: process_publish_queue_def)
  have qa: "queue_of a = q" using assms(2) by (simp add: queue_of_def)
  have keep: "\<And>a pid. publish_queue (snd (h a pid)) = publish_queue a"
    using assms(1) by blast
  have c: "map fst (snd (drain_items h q (a, []))) = map fst [] @ q \<and>
           list_all (\<lambda>(pid, q). pid \<in> set q) (snd (drain_items h q (a, [])))"
    using drain_items_calls [of h q a "[]"] keep qa by simp
  have e: "publish_queue (fst (drain_items h q (a, []))) = Some []
           \<and> snd (process_publish_queue h (fst (drain_items h q (a, [])))) = []"
    if ok: "\<forall>a pid. fst (h a pid) = None"
  proof -
    have "publish_queue (fst (drain_items h q (a, []))) = Some []"
      using drain_items_empties [of h a q "[]" "[]"] keep ok qa False by simp
    then show ?thesis by (simp add: process_publish_queue_def)
  qed
  have k: "publish_queue (fst (drain_items h q (a, []))) = Some q"
    if bad: "\<forall>a pid. fst (h a pid) \<noteq> None"
    using drain_items_keeps [of h q a "[]"] keep bad assms(2) by simp
  show ?thesis using c e k by (simp add: p)
qed

lemma publish_to_platform_keeps:
  "posts (publish_to_platform e post pid a p) = posts a \<and>
   publish_queue (publish_to_platform e post pid a p) = publish_queue a"
  by (simp add: publish_to_platform_def Let_def split: option.splits)

lemma foldl_publish_keeps:
  "posts (foldl (publish_to_platform e post pid) a ps) = posts a \<and>
   publish_queue (foldl (publish_to_platform e post pid) a ps) = publish_queue a"
  by (induction ps arbitrary: a) (simp_all add: publish_to_platform_keeps)

lemma publish_post_keeps_queue:
  "publish_queue (publish_post e now a pid) = publish_queue a"
  by (simp add: publish_post_def Let_def foldl_publish_keeps split: option.splits)

theorem drain_pass_calls_once_witness:
  "map fst (snd (process_publish_queue (publish_post_handler example_env 200) example_scheduler))
     = [''p1''] \<and>
   list_all (\<lambda>(pid, qq). pid \<in> set qq)
     (snd (process_publish_queue (publish_post_handler example_env 200) example_scheduler)) \<and>
   publish_queue
     (fst (process_publish_queue (publish_post_handler example_env 200) example_scheduler))
     = Some [] \<and>
   snd (process_publish_queue (publish_post_handler example_env 200)
          (fst (process_publish_queue (publish_post_handler example_env 200) example_scheduler)))
     = [] \<and>
   publish_queue (fst (process_publish_queue failing_publish_handler example_scheduler))
     = Some [''p1'']"
proof -
  have keep: "\<forall>a pid. publish_queue (snd (publish_post_handler example_env 200 a pid))
                = publish_queue a"
    by (simp add: publish_post_handler_def publish_post_keeps_queue)
  have q: "publish_queue example_scheduler = Some [''p1'']"
    by (simp add: example_scheduler_def)
  have ok: "\<forall>a pid. fst (publish_post_handler example_env 200 a pid) = None"
    by (simp add: publish_post_handler_def)
  have keep': "\<forall>a pid. publish_queue (snd (failing_publish_handler a pid)) = publish_queue a"
    by (simp add: failing_publish_handler_def)
  have bad: "\<forall>a pid. fst (failing_publish_handler a pid) \<noteq> None"
    by (simp add: failing_publish_handler_def)
  show ?thesis
    using drain_pass_calls_once [OF keep q] ok drain_pass_calls_once [OF keep' q] bad by blast
qed

text \<open>
  Claim C2 as stated fails on the order: in a pass over the queue holding \<open>p1\<close> the
  handler is called with \<open>p1\<close> still in the queue; the removal follows the call.
\<close>

theorem entry_in_queue_during_call_counterexample:
  "snd (process_publish_queue (publish_post_handler example_env 200) example_scheduler)
     = [(''p1'', [''p1''])] \<and>
   \<not> removed_before_invoked
       (snd (process_publish_queue (publish_post_handler example_env 200) example_scheduler))"
  by (simp add: process_publish_queue_def example_scheduler_def publish_post_handler_def
        removed_before_invoked_def queue_of_def)

section \<open>Publishing and status updates\<close>

lemma publish_to_platform_events:
  "events (publish_to_platform e post pid a p) =
     events a @ (if map_of (platform_specific_content post) (SocialPlatform_value p) \<noteq> None
                 then [Task_sent (SocialPlatform_value p @ ''-posting-agent'') pid] else [])"
  by (simp add: publish_to_platform_def Let_def split: option.splits)

lemma foldl_publish_events:
  "events (foldl (publish_to_platform e post pid) a ps) =
     events a @ map (\<lambda>p. Task_sent (SocialPlatform_value p @ ''-posting-agent'') pid)
                  (filter (\<lambda>p. map_of (platform_specific_content post) (SocialPlatform_value p)
                                \<noteq> None) ps)"
  by (induction ps arbitrary: a) (simp_all add: publish_to_platform_events)

lemma set_platform_post_id_status:
  "set_platform_post_id post pf ppid = Value post' \<Longrightarrow>
   post_status post' = post_status post \<and> post_id post' = post_id post"
  by (auto simp: set_platform_post_id_def split: jval.splits)

lemma raise_if_Value: "raise_if c ex = Value u \<Longrightarrow> \<not> c"
  by (simp add: raise_if_def split: if_splits)

lemma get_post_status:
  "get_post e coll k = Some post \<Longrightarrow>
   post_id post = k \<and> map_option post_status (coll k) = Some (post_status post)"
  by (auto simp: get_post_def split: if_splits)

lemma save_post_status:
  "post_id post = k \<Longrightarrow> map_option post_status (coll k) = Some (post_status post) \<Longrightarrow>
   map_option post_status (snd (save_post e coll post) k') = map_option post_status (coll k')"
  by (auto simp: save_post_def)

text \<open>A status update writes the post back with the status it was loaded with.\<close>

lemma post_status_update_body_keeps_status:
  assumes "post_status_update_body e now a task = Value a'"
  shows "map_option post_status (posts a' k) = map_option post_status (posts a k)"
proof (cases "extract_data_part_by_content_type (data_parts task) ''application/json''")
  case None
  then show ?thesis using assms by (simp add: post_status_update_body_def)
next
  case (Some dp)
  let ?d = "data dp"
  let ?pid = "dict_get ?d ''socialspark_post_id''"
  let ?found = "(case ?pid of JStr s \<Rightarrow> get_post e (posts a) s | _ \<Rightarrow> None)"
  let ?rest = "(case ?found of
                None \<Rightarrow> Value a
              | Some post \<Rightarrow>
                  bind (if dict_get ?d ''status'' = JStr ''success''
                          \<and> truthy (dict_get ?d ''platform_post_id'')
                        then set_platform_post_id post (dict_get ?d ''platform'')
                               (dict_get ?d ''platform_post_id'')
                        else Value post) (\<lambda>post1.
                  Value (a\<lparr>posts := snd (save_post e (posts a) (post1\<lparr>post_updated_at := now\<rparr>)),
                           stored_tasks := snd (save_task (replace_ok e) (stored_tasks a) task)\<rparr>)))"
  from assms Some have "?rest = Value a'"
    by (auto simp: post_status_update_body_def Let_def dest!: bind_Value)
  then show ?thesis
  proof (cases ?found)
    case None
    then show ?thesis using \<open>?rest = Value a'\<close> by simp
  next
    case (Some post)
    then obtain s where s: "?pid = JStr s" "get_post e (posts a) s = Some post"
      by (cases ?pid) auto
    from Some \<open>?rest = Value a'\<close> obtain post1 where
      p1: "(if dict_get ?d ''status'' = JStr ''success''
               \<and> truthy (dict_get ?d ''platform_post_id'')
            then set_platform_post_id post (dict_get ?d ''platform'')
                   (dict_get ?d ''platform_post_id'')
            else Value post) = Value post1"
      and a': "a' = a\<lparr>posts := snd (save_post e (posts a) (post1\<lparr>post_updated_at := now\<rparr>)),
                        stored_tasks := snd (save_task (replace_ok e) (stored_tasks a) task)\<rparr>"
      by (auto dest!: bind_Value)
    have same: "post_status post1 = post_status post \<and> post_id post1 = post_id post"
      using p1 by (auto dest: set_platform_post_id_status split: if_splits)
    have g: "post_id post = s \<and> map_option post_status (posts a s) = Some (post_status post)"
      using s(2) by (rule get_post_status)
    have "map_option post_status
            (snd (save_post e (posts a) (post1\<lparr>post_updated_at := now\<rparr>)) k)
          = map_option post_status (posts a k)"
      by (rule save_post_status [of _ s]) (use same g in simp_all)
    then show ?thesis by (simp add: a')
  qed
qed

lemma handle_post_status_update_keeps_status:
  assumes "handle_post_status_update e now a task = Value (task', a')"
  shows "map_option post_status (posts a' k) = map_option post_status (posts a k)"
proof (cases "post_status_update_body e now a task")
  case (Value a1)
  then have "a' = a1" using assms by (simp add: handle_post_status_update_def)
  then show ?thesis using Value post_status_update_body_keeps_status by blast
next
  case (Raised ex)
  then show ?thesis using assms by (simp add: handle_post_status_update_def)
next
  case Outside_model
  then show ?thesis using assms by (simp add: handle_post_status_update_def)
qed

text \<open>An update that does not report success is inside the model.\<close>

lemma post_status_update_body_inside:
  assumes "extract_data_part_by_content_type (data_parts task) ''application/json'' = Some dp"
      and "dict_get (data dp) ''status'' \<noteq> JStr ''success''"
  shows "post_status_update_body e now a task \<noteq> Outside_model"
  using assms
  by (auto simp: post_status_update_body_def Let_def raise_if_def split: option.splits)

text \<open>
  Claim C10. For a post in the store, with the database answering, \<open>_publish_post\<close>
  writes the post back with status published before it sends anything: the store holds
  the post as published afterwards, whatever sending does, and the run's effects are
  the save followed by one send per target platform that has adapted content. A status
  update handled by \<open>_handle_post_status_update\<close> leaves the status of every stored post
  as it was, and an update reporting \<open>failure\<close> is handled without an error of the
  model.
\<close>

theorem publish_then_status_update:
  "(find_ok e \<and> replace_ok e \<and> posts a pid = Some post \<longrightarrow>
      map_option post_status (posts (publish_post e now a pid) pid) = Some PUBLISHED \<and>
      events (publish_post e now a pid) =
        events a @ Post_saved pid PUBLISHED #
          map (\<lambda>p. Task_sent (SocialPlatform_value p @ ''-posting-agent'') pid)
            (filter (\<lambda>p. map_of (platform_specific_content post) (SocialPlatform_value p) \<noteq> None)
               (target_platforms post))) \<and>
   (handle_post_status_update e now a task = Value (task', a') \<longrightarrow>
      map_option post_status (posts a' k) = map_option post_status (posts a k)) \<and>
   (extract_data_part_by_content_type (data_parts task) ''application/json'' = Some dp \<and>
    dict_get (data dp) ''status'' = JStr ''failure'' \<longrightarrow>
      (\<exists>task1 a1. handle_post_status_update e now a task = Value (task1, a1) \<and>
         map_option post_status (posts a1 k) = map_option post_status (posts a k)))"
proof (intro conjI impI)
  assume h: "find_ok e \<and> replace_ok e \<and> posts a pid = Some post"
  let ?post' = "post\<lparr>post_id := pid, post_status := PUBLISHED, post_updated_at := now\<rparr>"
  have pp: "publish_post e now a pid =
              foldl (publish_to_platform e ?post' pid)
                (a\<lparr>posts := (posts a)(pid \<mapsto> ?post'),
                   events := events a @ [Post_saved pid PUBLISHED]\<rparr>)
                (target_platforms post)"
    using h by (simp add: publish_post_def get_post_def save_post_def Let_def)
  show "map_option post_status (posts (publish_post e now a pid) pid) = Some PUBLISHED"
    by (simp add: pp foldl_publish_keeps)
  show "events (publish_post e now a pid) =
        events a @ Post_saved pid PUBLISHED #
          map (\<lambda>p. Task_sent (SocialPlatform_value p @ ''-posting-agent'') pid)
            (filter (\<lambda>p. map_of (platform_specific_content post) (SocialPlatform_value p) \<noteq> None)
               (target_platforms post))"
    by (simp add: pp foldl_publish_events)
next
  assume "handle_post_status_update e now a task = Value (task', a')"
  then show "map_option post_status (posts a' k) = map_option post_status (posts a k)"
    by (rule handle_post_status_update_keeps_status)
next
  assume f: "extract_data_part_by_content_type (data_parts task) ''application/json'' = Some dp \<and>
             dict_get (data dp) ''status'' = JStr ''failure''"
  then have "post_status_update_body e now a task \<noteq> Outside_model"
    by (intro post_status_update_body_inside [of task dp]) simp_all
  then obtain task1 a1 where r: "handle_post_status_update e now a task = Value (task1, a1)"
    by (cases "post_status_update_body e now a task")
       (simp_all add: handle_post_status_update_def)
  then show "\<exists>task1 a1. handle_post_status_update e now a task = Value (task1, a1) \<and>
         map_option post_status (posts a1 k) = map_option post_status (posts a k)"
    using handle_post_status_update_keeps_status by blast
qed

theorem publish_then_status_update_witness:
  "map_option post_status (posts (publish_post example_env 200 example_scheduler ''p1'') ''p1'')
     = Some PUBLISHED \<and>
   events (publish_post example_env 200 example_scheduler ''p1'') =
     events example_scheduler @ Post_saved ''p1'' PUBLISHED #
       map (\<lambda>p. Task_sent (SocialPlatform_value p @ ''-posting-agent'') ''p1'')
         (filter (\<lambda>p. map_of (platform_specific_content example_post) (SocialPlatform_value p)
                       \<noteq> None)
            (target_platforms example_post)) \<and>
   (\<exists>task1 a1.
      handle_post_status_update example_env 300
        (publish_post example_env 200 example_scheduler ''p1'') failure_update_task
        = Value (task1, a1) \<and>
      map_option post_status (posts a1 ''p1'')
        = map_option post_status
            (posts (publish_post example_env 200 example_scheduler ''p1'') ''p1''))"
proof -
  have 1: "find_ok example_env \<and> replace_ok example_env \<and>
           posts example_scheduler ''p1'' = Some example_post"
    by (simp add: example_env_def example_scheduler_def)
  have 2: "extract_data_part_by_content_type (data_parts failure_update_task) ''application/json''
             = Some \<lparr>dp_id = ''d1'', content_type = ''application/json'',
                     data = [(''socialspark_post_id'', JStr ''p1''), (''platform'', JStr ''facebook''),
                             (''status'', JStr ''failure''),
                             (''error_message'', JStr ''token expired'')]\<rparr> \<and>
           dict_get (data \<lparr>dp_id = ''d1'', content_type = ''application/json'',
                     data = [(''socialspark_post_id'', JStr ''p1''), (''platform'', JStr ''facebook''),
                             (''status'', JStr ''failure''),
                             (''error_message'', JStr ''token expired'')]\<rparr>) ''status''
             = JStr ''failure''"
    by (simp add: failure_update_task_def dict_get_def)
  show ?thesis
    using 1 2
      publish_then_status_update
        [where e = example_env and a = example_scheduler and pid = "''p1''"
           and post = example_post and now = 200]
      publish_then_status_update
        [where e = example_env and now = 300
           and a = "publish_post example_env 200 example_scheduler ''p1''"
           and task = failure_update_task and k = "''p1''"
           and dp = "\<lparr>dp_id = ''d1'', content_type = ''application/json'',
                     data = [(''socialspark_post_id'', JStr ''p1''), (''platform'', JStr ''facebook''),
                             (''status'', JStr ''failure''),
                             (''error_message'', JStr ''token expired'')]\<rparr>"]
    by blast
qed

section \<open>Validation failures of a schedule request\<close>

text \<open>
  Whenever the \<open>try\<close> block of \<open>_handle_process_schedule_post\<close> raises, the handler marks
  the task failed with the message and returns; \<open>_process_task\<close> then takes the return
  for a success and sets the status to completed. The message stays in the metadata.
\<close>

lemma failed_status_overwritten:
  assumes "process_schedule_post_body e now a task = Raised ex"
      and "task_type task = ''process_and_schedule_post''"
  shows "handle_process_schedule_post e now a task = Value (fail_task task ex now, a) \<and>
         task_status (fail_task task ex now) = FAILED \<and>
         process_task (scheduler_agent e a) task now
           = Some (update_status (fail_task task ex now) COMPLETED now)"
  using assms
  by (simp add: handle_process_schedule_post_def fail_task_def update_status_def
        process_task_def scheduler_agent_def registered_def)

text \<open>
  Claim C4, on the code: a schedule request without any data part. The handler leaves
  the task failed with the validation message; after \<open>_process_task\<close> the task is
  completed, the message still under \<open>error\<close>.
\<close>

theorem missing_payload_ends_completed:
  "map_outcome (\<lambda>r. (task_status (fst r), task_metadata (fst r)))
     (handle_process_schedule_post example_env 9 example_scheduler empty_schedule_task)
     = Value (FAILED, Some [(''error'', JStr ''No content data found in task'')]) \<and>
   map_option (\<lambda>t. (task_status t, task_metadata t))
     (process_task (scheduler_agent example_env example_scheduler) empty_schedule_task 9)
     = Some (COMPLETED, Some [(''error'', JStr ''No content data found in task'')])"
proof -
  have b: "process_schedule_post_body example_env 9 example_scheduler empty_schedule_task
             = Raised (ValueError ''No content data found in task'')"
    by (simp add: process_schedule_post_body_def empty_schedule_task_def example_task_def)
  have t: "task_type empty_schedule_task = ''process_and_schedule_post''"
    by (simp add: empty_schedule_task_def)
  have m: "task_metadata empty_schedule_task = None"
    by (simp add: empty_schedule_task_def example_task_def)
  show ?thesis
    using failed_status_overwritten [OF b t] m
    by (simp add: fail_task_def update_status_def set_metadata_def)
qed

text \<open>
  The same with a payload that lacks the user id: every validation error takes this
  path.
\<close>

lemma missing_user_id_ends_completed:
  "map_option (\<lambda>t. (task_status t, task_metadata t))
     (process_task (scheduler_agent example_env example_scheduler)
        (empty_schedule_task\<lparr>data_parts :=
           [\<lparr>dp_id = ''d1'', content_type = ''application/json'',
             data = [(''raw_text'', JStr ''Hello #world''),
                     (''target_platforms'', JList [JStr ''facebook'']),
                     (''schedule_time'', JStr ''2030-01-01T10:00:00'')]\<rparr>]\<rparr>) 9)
     = Some (COMPLETED, Some [(''error'', JStr ''user_id is required'')])"
proof -
  let ?task = "empty_schedule_task\<lparr>data_parts :=
           [\<lparr>dp_id = ''d1'', content_type = ''application/json'',
             data = [(''raw_text'', JStr ''Hello #world''),
                     (''target_platforms'', JList [JStr ''facebook'']),
                     (''schedule_time'', JStr ''2030-01-01T10:00:00'')]\<rparr>]\<rparr>"
  have b: "process_schedule_post_body example_env 9 example_scheduler ?task
             = Raised (ValueError ''user_id is required'')"
    by (simp add: process_schedule_post_body_def dict_get_def raise_if_def Let_def)
  have t: "task_type ?task = ''process_and_schedule_post''"
    by (simp add: empty_schedule_task_def)
  have m: "task_metadata ?task = None"
    by (simp add: empty_schedule_task_def example_task_def)
  show ?thesis
    using failed_status_overwritten [OF b t] m
    by (simp add: fail_task_def update_status_def set_metadata_def)
qed

text \<open>
  A well-formed request, for comparison: the post is stored as scheduled with its two
  adapted contents, one job is registered, and the task ends completed with the post id
  in its metadata.
\<close>

lemma well_formed_request_scheduled:
  "map_outcome
     (\<lambda>r. (task_metadata (fst r),
            map_option (\<lambda>p. (post_status p, map fst (platform_specific_content p)))
              (posts (snd r) ''id-1''),
            jobs (snd r)))
     (handle_process_schedule_post example_env 9
        (example_scheduler\<lparr>posts := Map.empty\<rparr>)
        (empty_schedule_task\<lparr>data_parts :=
           [\<lparr>dp_id = ''d1'', content_type = ''application/json'',
             data = [(''user_id'', JStr ''u1''), (''raw_text'', JStr ''Hello #world''),
                     (''target_platforms'', JList [JStr ''Facebook'', JStr ''twitter'', JStr ''myspace'']),
                     (''schedule_time'', JStr ''2030-01-01T10:00:00'')]\<rparr>]\<rparr>))
   = Value (Some [(''post_id'', JStr ''id-1''), (''schedule_time'', JStr ''2030-01-01T10:00:00'')],
            Some (SCHEDULED, [''facebook'', ''twitter'']),
            [\<lparr>job_id = ''publish_post_id-1'', run_date = 100, args = [''id-1'']\<rparr>])"
  by code_simp

end
